theory Spec2Isabelle
  imports Main "HOL-Library.Log_Nat"
begin

section \<open>The URL mapping manager (urlService.ts)\<close>

text \<open>
  A shallow embedding of the class \<open>UrlService\<close> of
  \<open>Frontend Test Submission/src/services/urlService.ts\<close>.

  \<^item> The value kept in \<open>localStorage\<close> under \<open>STORAGE_KEY\<close> is the state: a list of
    mapping records in storage order. A missing key is the empty list. Storage is taken to
    succeed (the \<open>catch\<close> branches of \<open>getStoredMappings\<close> and \<open>saveMappings\<close> are
    not modelled), and every operation runs alone on the store.
  \<^item> A JavaScript number is an IEEE 754 binary64 value: \<open>NaN\<close>, an infinity or a
    finite double, held as the rational it denotes. Multiplication and addition round
    to the nearest double, ties to even, as the language does. The two zeros are one
    value: nothing in the service tells them apart. The optional \<open>validityMinutes\<close> of a
    request is such a number. The \<open>accessCount\<close> of a stored record is read from JSON,
    where a number is finite.
  \<^item> Times are integers, the milliseconds since the epoch. A \<open>Date\<close> is \<open>Some t\<close>
    when it holds the time value \<open>t\<close>, and \<open>None\<close> when it is an Invalid Date.
    \<open>JSON.stringify\<close> writes an Invalid Date as \<open>null\<close>, so \<open>None\<close> is also the
    \<open>null\<close> read back from storage.
  \<^item> Every reading of the clock is an argument of the operation that reads it, in the
    order of the readings.
  \<^item> The platform's URL parser, \<open>window.location.origin\<close> and the sequence of values
    of \<open>Math.floor(Math.random() * chars.length)\<close> are arguments.
  \<^item> \<open>Logger.Log\<close> never throws and returns nothing the service uses; the message
    that tells the branches of \<open>resolveShortcode\<close> apart is kept as a tag of the result.
\<close>

subsection \<open>Numbers\<close>

datatype number = NaN | Infinity bool | Finite rat

text \<open>Rounding a rational to the nearest integer, a tie to the even one.\<close>

definition round_half_even :: "rat \<Rightarrow> int" where
  "round_half_even q =
     (let f = \<lfloor>q\<rfloor>; d = q - of_int f
      in if d < 1 / 2 then f else if 1 / 2 < d then f + 1 else if even f then f else f + 1)"

text \<open>The binary exponent of a rational other than 0: the \<open>e\<close> with
  \<open>2 ^ e \<le> |q| < 2 ^ (e + 1)\<close>, found from the bit lengths of numerator and
  denominator.\<close>

definition exponent :: "rat \<Rightarrow> int" where
  "exponent q =
     (let (a, b) = quotient_of \<bar>q\<bar>; d = bitlen a - bitlen b
      in if 2 powi d \<le> \<bar>q\<bar> then d else d - 1)"

text \<open>The double nearest to a rational, before the test for overflow: 53 significant
  bits, and no bit below \<open>2 ^ - 1074\<close>, the spacing of the subnormal doubles.\<close>

definition round_double :: "rat \<Rightarrow> rat" where
  "round_double q =
     (if q = 0 then 0
      else let u = max (exponent q - 52) (- 1074)
           in of_int (round_half_even (q / 2 powi u)) * 2 powi u)"

text \<open>The number that an exact result \<open>q\<close> of an arithmetic operation becomes: the
  nearest double, or an infinity when that is \<open>2 ^ 1024\<close> or more in size.\<close>

definition fl :: "rat \<Rightarrow> number" where
  "fl q = (let r = round_double q in if 2 ^ 1024 \<le> \<bar>r\<bar> then Infinity (0 < r) else Finite r)"

text \<open>The operators \<open>*\<close> and \<open>+\<close> on numbers. \<open>Infinity True\<close> is the positive
  infinity.\<close>

fun Number_multiply :: "number \<Rightarrow> number \<Rightarrow> number" where
  "Number_multiply NaN y = NaN"
| "Number_multiply x NaN = NaN"
| "Number_multiply (Infinity s) (Infinity t) = Infinity (s = t)"
| "Number_multiply (Infinity s) (Finite b) = (if b = 0 then NaN else Infinity (s = (0 < b)))"
| "Number_multiply (Finite a) (Infinity t) = (if a = 0 then NaN else Infinity (t = (0 < a)))"
| "Number_multiply (Finite a) (Finite b) = fl (a * b)"

fun Number_add :: "number \<Rightarrow> number \<Rightarrow> number" where
  "Number_add NaN y = NaN"
| "Number_add x NaN = NaN"
| "Number_add (Infinity s) (Infinity t) = (if s = t then Infinity s else NaN)"
| "Number_add (Infinity s) (Finite b) = Infinity s"
| "Number_add (Finite a) (Infinity t) = Infinity t"
| "Number_add (Finite a) (Finite b) = fl (a + b)"

text \<open>The truth value of a number: \<open>NaN\<close> and 0 are false.\<close>

definition ToBoolean :: "number \<Rightarrow> bool" where
  "ToBoolean x = (x \<noteq> NaN \<and> x \<noteq> Finite 0)"

subsection \<open>Dates\<close>

type_synonym Date = "int option"

text \<open>The integer part of a rational, towards 0.\<close>

definition integer_part :: "rat \<Rightarrow> int" where
  "integer_part q = (if 0 \<le> q then \<lfloor>q\<rfloor> else \<lceil>q\<rceil>)"

text \<open>\<open>new Date(x)\<close> for a number \<open>x\<close>: an Invalid Date when \<open>x\<close> is not finite or is
  beyond 8.64e15 ms on either side of the epoch, the integer part of \<open>x\<close> otherwise
  (TimeClip).\<close>

definition Date_new :: "number \<Rightarrow> Date" where
  "Date_new x =
     (case x of
        Finite q \<Rightarrow> if \<bar>q\<bar> \<le> 8640000000000000 then Some (integer_part q) else None
      | _ \<Rightarrow> None)"

text \<open>The time value of \<open>new Date(d)\<close> for a date field \<open>d\<close> read back from storage: the
  ISO string of a valid date parses to its time value, and \<open>new Date(null)\<close> is the
  epoch.\<close>

definition Date_value :: "Date \<Rightarrow> int" where
  "Date_value d = (case d of Some t \<Rightarrow> t | None \<Rightarrow> 0)"

subsection \<open>Data\<close>

record ShortenUrlRequest =
  req_originalUrl :: string
  req_customShortcode :: "string option"
  req_validityMinutes :: "number option"

record ShortenUrlResponse =
  res_shortUrl :: string
  res_shortcode :: string
  res_originalUrl :: string
  res_expiresAt :: Date
  res_createdAt :: Date

record UrlMapping =
  shortcode :: string
  originalUrl :: string
  expiresAt :: Date
  createdAt :: Date
  accessCount :: rat

type_synonym store = "UrlMapping list"

text \<open>The three errors thrown by \<open>shortenUrl\<close>, with their messages.\<close>

datatype error = InvalidUrlError | InvalidCodeFormatError | CodeTakenError

fun message :: "error \<Rightarrow> string" where
  "message InvalidUrlError = ''Invalid URL provided''"
| "message InvalidCodeFormatError = ''Custom shortcode must be 3-10 alphanumeric characters''"
| "message CodeTakenError = ''Custom shortcode already exists''"

subsection \<open>Code generator and validators\<close>

definition chars :: string where
  "chars = ''abcdefghijklmnopqrstuvwxyzABCDEFGHIJKLMNOPQRSTUVWXYZ0123456789''"

text \<open>\<open>String.prototype.charAt\<close>: the empty string out of range.\<close>

definition charAt :: "string \<Rightarrow> nat \<Rightarrow> string" where
  "charAt s i = (if i < length s then [s ! i] else [])"

text \<open>\<open>generateShortcode\<close> reads six values of the random index, from position \<open>k\<close> of the
  sequence \<open>draws\<close>.\<close>

definition generateShortcode :: "(nat \<Rightarrow> nat) \<Rightarrow> nat \<Rightarrow> string" where
  "generateShortcode draws k = concat (map (\<lambda>i. charAt chars (draws (k + i))) [0..<6])"

text \<open>\<open>isValidUrl\<close>: \<open>URL_parses url\<close> says that \<open>new URL(url)\<close> does not throw.\<close>

definition isValidUrl :: "(string \<Rightarrow> bool) \<Rightarrow> string \<Rightarrow> bool" where
  "isValidUrl URL_parses url = (if URL_parses url then True else False)"

definition alnum :: "char \<Rightarrow> bool" where
  "alnum c = (let n = (of_char c :: nat) in
     (97 \<le> n \<and> n \<le> 122) \<or> (65 \<le> n \<and> n \<le> 90) \<or> (48 \<le> n \<and> n \<le> 57))"

text \<open>\<open>isValidShortcode\<close>: the regular expression \<open>/^[a-zA-Z0-9]{3,10}$/\<close>.\<close>

definition isValidShortcode :: "string \<Rightarrow> bool" where
  "isValidShortcode s = (3 \<le> length s \<and> length s \<le> 10 \<and> list_all alnum s)"

subsection \<open>Expiration sweep\<close>

text \<open>The filter of \<open>cleanExpiredMappings\<close>: \<open>new Date(mapping.expiresAt) > now\<close>.\<close>

definition live :: "int \<Rightarrow> UrlMapping \<Rightarrow> bool" where
  "live now mapping = (now < Date_value (expiresAt mapping))"

definition cleanExpiredMappings :: "int \<Rightarrow> store \<Rightarrow> store" where
  "cleanExpiredMappings now mappings =
     (let validMappings = filter (live now) mappings
      in if length validMappings \<noteq> length mappings then validMappings else mappings)"

subsection \<open>Create\<close>

definition taken :: "store \<Rightarrow> string \<Rightarrow> bool" where
  "taken mappings code = list_ex (\<lambda>mapping. shortcode mapping = code) mappings"

text \<open>The loop \<open>while (mappings.some(...)) shortcode = generateShortcode()\<close>; \<open>k\<close> is the
  position of the next random value. The loop need not end: \<open>None\<close> is a run that never
  leaves it.\<close>

partial_function (option) regenerate ::
  "(nat \<Rightarrow> nat) \<Rightarrow> store \<Rightarrow> string \<Rightarrow> nat \<Rightarrow> string option" where
  "regenerate draws mappings code k =
     (if taken mappings code
      then regenerate draws mappings (generateShortcode draws k) (k + 6)
      else Some code)"

text \<open>Lines 95 to 116: the custom code when it is given (a defined, non-empty string),
  a generated one otherwise.\<close>

definition chooseShortcode ::
  "(nat \<Rightarrow> nat) \<Rightarrow> store \<Rightarrow> string option \<Rightarrow> (error + string) option" where
  "chooseShortcode draws mappings custom =
     (case custom of
        Some c \<Rightarrow>
          if c \<noteq> [] then
            (if \<not> isValidShortcode c then Some (Inl InvalidCodeFormatError)
             else if taken mappings c then Some (Inl CodeTakenError)
             else Some (Inr c))
          else map_option Inr (regenerate draws mappings (generateShortcode draws 0) 6)
      | None \<Rightarrow> map_option Inr (regenerate draws mappings (generateShortcode draws 0) 6))"

text \<open>\<open>request.validityMinutes || 30\<close>: an undefined value and a false number (0 or
  \<open>NaN\<close>) give 30.\<close>

definition validityMinutes_of :: "number option \<Rightarrow> number" where
  "validityMinutes_of v =
     (case v of None \<Rightarrow> Finite 30 | Some x \<Rightarrow> if ToBoolean x then x else Finite 30)"

text \<open>Line 120: \<open>new Date(Date.now() + validityMinutes * 60 * 1000)\<close>, with \<open>t_now\<close> the
  value of \<open>Date.now()\<close>.\<close>

definition expiryDate :: "int \<Rightarrow> number \<Rightarrow> Date" where
  "expiryDate t_now validityMinutes =
     Date_new (Number_add (Finite (of_int t_now))
       (Number_multiply (Number_multiply validityMinutes (Finite 60)) (Finite 1000)))"

text \<open>\<open>shortenUrl\<close>. The clock is read three times: \<open>t_clean\<close> in the sweep, \<open>t_now\<close> by
  \<open>Date.now()\<close> and \<open>t_created\<close> for \<open>createdAt\<close>. The result is the thrown error or
  the response, with the store the call leaves.\<close>

definition shortenUrl ::
  "(string \<Rightarrow> bool) \<Rightarrow> string \<Rightarrow> (nat \<Rightarrow> nat) \<Rightarrow> int \<Rightarrow> int \<Rightarrow> int \<Rightarrow>
     ShortenUrlRequest \<Rightarrow> store \<Rightarrow> ((error + ShortenUrlResponse) \<times> store) option" where
  "shortenUrl URL_parses BASE_URL draws t_clean t_now t_created request stored =
     (if \<not> isValidUrl URL_parses (req_originalUrl request)
      then Some (Inl InvalidUrlError, stored)
      else
        let mappings = cleanExpiredMappings t_clean stored in
        case chooseShortcode draws mappings (req_customShortcode request) of
          None \<Rightarrow> None
        | Some (Inl e) \<Rightarrow> Some (Inl e, mappings)
        | Some (Inr code) \<Rightarrow>
            let validityMinutes = validityMinutes_of (req_validityMinutes request);
                expires = expiryDate t_now validityMinutes;
                created = Date_new (Finite (of_int t_created));
                newMapping = \<lparr>shortcode = code, originalUrl = req_originalUrl request,
                  expiresAt = expires, createdAt = created, accessCount = 0\<rparr>
            in Some (Inr \<lparr>res_shortUrl = BASE_URL @ ''/'' @ code, res_shortcode = code,
                  res_originalUrl = req_originalUrl request, res_expiresAt = expires,
                  res_createdAt = created\<rparr>,
                mappings @ [newMapping]))"

subsection \<open>Resolve, list, delete\<close>

text \<open>\<open>mapping.accessCount++\<close> on the record that \<open>find\<close> returned: the first one with
  the code, updated in place in the array that is saved. The new count is the double
  nearest to the count plus 1 (adding 1 to a finite double does not overflow).\<close>

fun incrementAccess :: "string \<Rightarrow> store \<Rightarrow> store" where
  "incrementAccess code [] = []"
| "incrementAccess code (m # ms) =
     (if shortcode m = code then m\<lparr>accessCount := round_double (accessCount m + 1)\<rparr> # ms
      else m # incrementAccess code ms)"

text \<open>The three ways out of \<open>resolveShortcode\<close>, named by what each one logs.\<close>

datatype resolve_branch = Not_found | Expired | Resolved

text \<open>\<open>resolveShortcode\<close>: the returned value (\<open>None\<close> is \<open>null\<close>), the branch taken and
  the store. \<open>t_clean\<close> is the clock of the sweep, \<open>t_check\<close> the clock of the check.\<close>

definition resolveShortcode ::
  "int \<Rightarrow> int \<Rightarrow> string \<Rightarrow> store \<Rightarrow> string option \<times> resolve_branch \<times> store" where
  "resolveShortcode t_clean t_check code stored =
     (let mappings = cleanExpiredMappings t_clean stored in
      case find (\<lambda>m. shortcode m = code) mappings of
        None \<Rightarrow> (None, Not_found, mappings)
      | Some mapping \<Rightarrow>
          if Date_value (expiresAt mapping) \<le> t_check then (None, Expired, mappings)
          else (Some (originalUrl mapping), Resolved, incrementAccess code mappings))"

definition getAllMappings :: "int \<Rightarrow> store \<Rightarrow> UrlMapping list \<times> store" where
  "getAllMappings t_clean stored =
     (let mappings = cleanExpiredMappings t_clean stored in (mappings, mappings))"

definition deleteMappingByShortcode :: "string \<Rightarrow> store \<Rightarrow> bool \<times> store" where
  "deleteMappingByShortcode code mappings =
     (let initialLength = length mappings;
          filteredMappings = filter (\<lambda>m. shortcode m \<noteq> code) mappings
      in if length filteredMappings = initialLength then (False, mappings)
         else (True, filteredMappings))"

subsection \<open>Sequences of operations\<close>

text \<open>One call of one of the four operations, with any arguments, any clock readings,
  any parser and any random values, takes the store from \<open>s\<close> to \<open>s'\<close>. A call of
  \<open>shortenUrl\<close> that throws counts too: the sweep it ran may have been saved.\<close>

inductive step :: "store \<Rightarrow> store \<Rightarrow> bool" where
  create:
    "shortenUrl URL_parses BASE_URL draws t_clean t_now t_created request s = Some (r, s')
     \<Longrightarrow> step s s'"
| resolve: "resolveShortcode t_clean t_check code s = (url, b, s') \<Longrightarrow> step s s'"
| list: "getAllMappings t_clean s = (ms, s') \<Longrightarrow> step s s'"
| delete: "deleteMappingByShortcode code s = (removed, s') \<Longrightarrow> step s s'"

inductive reachable :: "store \<Rightarrow> bool" where
  empty: "reachable []"
| step: "reachable s \<Longrightarrow> step s s' \<Longrightarrow> reachable s'"

text \<open>At time \<open>t\<close>, no shortcode of the store has two live records.\<close>

definition at_most_one_live :: "int \<Rightarrow> store \<Rightarrow> bool" where
  "at_most_one_live t s =
     list_all (\<lambda>c. length (filter (\<lambda>m. shortcode m = c \<and> live t m) s) \<le> 1) (map shortcode s)"




subsection \<open>Sample environment\<close>

text \<open>A stand-in for the platform's parser on four strings: the three URLs parse, and
  \<open>not a url\<close> does not.\<close>

definition sample_URL_parses :: "string \<Rightarrow> bool" where
  "sample_URL_parses s =
     (s = ''https://example.com'' \<or> s = ''javascript:alert(1)'' \<or> s = ''file:///etc/hosts'')"

text \<open>Random indices 0, 1, 2, ...: the first generated code is \<open>abcdef\<close>.\<close>

definition sample_draws :: "nat \<Rightarrow> nat" where
  "sample_draws n = n mod 62"

text \<open>A stored record with the code and the expiry time given.\<close>

definition sample_mapping :: "string \<Rightarrow> int \<Rightarrow> UrlMapping" where
  "sample_mapping code t = \<lparr>shortcode = code, originalUrl = ''https://example.com'',
     expiresAt = Some t, createdAt = Some 0, accessCount = 0\<rparr>"

section \<open>Properties\<close>

subsection \<open>Doubles\<close>

lemma round_half_even_of_int: "round_half_even (of_int k) = k"
  by (simp add: round_half_even_def)

lemma bitlen_powi_bounds:
  assumes "0 < a"
  shows "(2::rat) powi (bitlen a - 1) \<le> of_int a" and "of_int a < (2::rat) powi bitlen a"
proof -
  from assms have b1: "1 \<le> bitlen a" by (auto simp: bitlen_alt_def)
  from bitlen_bounds [OF assms] have lo: "2 ^ nat (bitlen a - 1) \<le> a" and hi: "a < 2 ^ nat (bitlen a)"
    by simp_all
  from lo have "(of_int (2 ^ nat (bitlen a - 1)) :: rat) \<le> of_int a" by (simp only: of_int_le_iff)
  with b1 show "(2::rat) powi (bitlen a - 1) \<le> of_int a" by (simp add: power_int_def)
  from hi have "(of_int a :: rat) < of_int (2 ^ nat (bitlen a))" by (simp only: of_int_less_iff)
  with b1 show "of_int a < (2::rat) powi bitlen a" by (simp add: power_int_def)
qed

lemma exponent_bounds:
  assumes "q \<noteq> 0"
  shows "2 powi exponent q \<le> \<bar>q\<bar>" and "\<bar>q\<bar> < 2 powi (exponent q + 1)"
proof -
  obtain a b where ab: "quotient_of \<bar>q\<bar> = (a, b)" by (cases "quotient_of \<bar>q\<bar>")
  then have b: "0 < b" and q: "\<bar>q\<bar> = of_int a / of_int b"
    by (simp_all add: quotient_of_denom_pos quotient_of_div)
  from assms have "0 < \<bar>q\<bar>" by simp
  with q b have a: "0 < a" by (simp add: zero_less_divide_iff)
  define d where "d = bitlen a - bitlen b"
  have e: "exponent q = (if 2 powi d \<le> \<bar>q\<bar> then d else d - 1)"
    by (simp add: exponent_def ab d_def Let_def)
  from b have bq: "(0::rat) < of_int b" by simp
  have lo: "(2::rat) powi (d - 1) \<le> \<bar>q\<bar>"
  proof -
    have "(2::rat) powi (d - 1) = 2 powi (bitlen a - 1) / 2 powi bitlen b"
      by (simp add: d_def power_int_diff)
    also have "\<dots> \<le> of_int a / 2 powi bitlen b"
      using bitlen_powi_bounds(1) [OF a] by (simp add: divide_right_mono)
    also have "\<dots> \<le> of_int a / of_int b"
      using bitlen_powi_bounds(2) [OF b] a bq by (simp add: frac_le)
    finally show ?thesis by (simp add: q)
  qed
  have hi: "\<bar>q\<bar> < (2::rat) powi (d + 1)"
  proof -
    have "of_int a / of_int b < (2::rat) powi bitlen a / of_int b"
      using bitlen_powi_bounds(2) [OF a] bq by (simp add: divide_strict_right_mono)
    also have "\<dots> \<le> 2 powi bitlen a / 2 powi (bitlen b - 1)"
      using bitlen_powi_bounds(1) [OF b] by (simp add: frac_le)
    also have "\<dots> = 2 powi (bitlen a - (bitlen b - 1))"
      by (rule power_int_diff [symmetric]) simp
    also have "bitlen a - (bitlen b - 1) = d + 1" by (simp add: d_def)
    finally show ?thesis by (simp add: q)
  qed
  from e lo show "2 powi exponent q \<le> \<bar>q\<bar>" by simp
  from e hi show "\<bar>q\<bar> < 2 powi (exponent q + 1)" by (simp split: if_splits)
qed

lemma round_double_dyadic:
  assumes "\<bar>m\<bar> < 2 ^ 53" and "- 1074 \<le> j"
  shows "round_double (of_int m * 2 powi j) = of_int m * 2 powi j"
proof (cases "m = 0")
  case True
  then show ?thesis by (simp add: round_double_def)
next
  case False
  define q :: rat where "q = of_int m * 2 powi j"
  from False have q0: "q \<noteq> 0" by (simp add: q_def)
  define u where "u = max (exponent q - 52) (- 1074)"
  have "(2::rat) powi exponent q \<le> \<bar>q\<bar>" using exponent_bounds(1) [OF q0] .
  also have "\<bar>q\<bar> = of_int \<bar>m\<bar> * 2 powi j" by (simp add: q_def abs_mult)
  also have "\<dots> < 2 ^ 53 * 2 powi j"
  proof -
    from assms(1) have "(of_int \<bar>m\<bar> :: rat) < of_int (2 ^ 53)" by (simp only: of_int_less_iff)
    then show ?thesis by (simp add: mult_strict_right_mono)
  qed
  also have "\<dots> = (2::rat) powi (53 + j)" by (simp add: power_int_add)
  finally have lt: "(2::rat) powi exponent q < 2 powi (53 + j)" .
  have "exponent q < 53 + j"
  proof (rule ccontr)
    assume "\<not> exponent q < 53 + j"
    then have "53 + j \<le> exponent q" by simp
    then have "(2::rat) powi (53 + j) \<le> 2 powi exponent q" by (rule power_int_increasing) simp
    with lt show False by simp
  qed
  with assms(2) have uj: "u \<le> j" by (simp add: u_def)
  then have "q / 2 powi u = of_int m * 2 powi (j - u)" by (simp add: q_def power_int_diff)
  also from uj have "\<dots> = of_int (m * 2 ^ nat (j - u))" by (simp add: power_int_def)
  finally have "of_int (round_half_even (q / 2 powi u)) * 2 powi u = q / 2 powi u * 2 powi u"
    by (simp only: round_half_even_of_int)
  also have "\<dots> = q" by simp
  finally show ?thesis using q0 unfolding round_double_def u_def q_def by (simp add: Let_def)
qed

lemma round_double_of_int:
  assumes "\<bar>k\<bar> \<le> 2 ^ 53"
  shows "round_double (of_int k) = of_int k"
proof (cases "\<bar>k\<bar> = 2 ^ 53")
  case True
  then consider "k = 1 * 2 ^ 53" | "k = - 1 * 2 ^ 53" by (auto simp: abs_if split: if_splits)
  then show ?thesis
  proof cases
    case 1
    from round_double_dyadic [of 1 53] 1 show ?thesis by (simp add: power_int_def)
  next
    case 2
    from round_double_dyadic [of "- 1" 53] 2 show ?thesis by (simp add: power_int_def)
  qed
next
  case False
  with assms have "\<bar>k\<bar> < 2 ^ 53" by simp
  from round_double_dyadic [OF this, of 0] show ?thesis by simp
qed

lemma fl_of_int: "\<bar>k\<bar> \<le> 2 ^ 53 \<Longrightarrow> fl (of_int k) = Finite (of_int k)"
proof -
  assume a: "\<bar>k\<bar> \<le> 2 ^ 53"
  then have "(of_int \<bar>k\<bar> :: rat) \<le> of_int (2 ^ 53)" by (simp only: of_int_le_iff)
  then have "\<bar>of_int k :: rat\<bar> < 2 ^ 1024" by simp
  with a show ?thesis by (simp add: fl_def round_double_of_int Let_def)
qed


lemma round_double_numeral:
  "numeral w \<le> (9007199254740992::int) \<Longrightarrow> round_double (numeral w) = numeral w"
  using round_double_of_int [of "numeral w"] by simp

lemma round_double_one: "round_double 1 = 1"
  using round_double_of_int [of 1] by simp




lemma Date_new_of_int:
  "\<bar>t\<bar> \<le> 8640000000000000 \<Longrightarrow> Date_new (Finite (of_int t)) = Some t"
proof -
  assume "\<bar>t\<bar> \<le> 8640000000000000"
  then have "\<bar>(of_int t :: rat)\<bar> \<le> of_int 8640000000000000"
    by (simp only: of_int_abs [symmetric] of_int_le_iff)
  then show ?thesis by (simp add: Date_new_def integer_part_def)
qed

text \<open>The expiry date of a whole number of minutes, when the clock and the expiry time
  are time values: all three operations are exact.\<close>

lemma fl_times_32:
  assumes "\<bar>m\<bar> < 2 ^ 53"
  shows "fl (of_int (m * 32)) = Finite (of_int (m * 32))"
proof -
  from round_double_dyadic [OF assms, of 5]
  have r: "round_double (of_int (m * 32)) = of_int (m * 32)" by (simp add: power_int_def)
  from assms have "(of_int \<bar>m * 32\<bar> :: rat) < of_int (2 ^ 53 * 32)"
    by (simp only: of_int_less_iff)
  then have "\<bar>of_int (m * 32) :: rat\<bar> < 2 ^ 1024" by simp
  with r show ?thesis by (simp add: fl_def Let_def)
qed

lemma expiryDate_whole:
  assumes "\<bar>now\<bar> \<le> 8640000000000000" and "\<bar>now + n * 60000\<bar> \<le> 8640000000000000"
  shows "expiryDate now (Finite (of_int n)) = Some (now + n * 60000)"
proof -
  from assms have n: "\<bar>n\<bar> \<le> 288000000000" by simp
  then have "\<bar>n * 60\<bar> \<le> 2 ^ 53" by simp
  from fl_of_int [OF this]
  have a: "Number_multiply (Finite (of_int n)) (Finite 60) = Finite (of_int (n * 60))" by simp
  from n have "\<bar>n * 1875\<bar> < 2 ^ 53" by simp
  from fl_times_32 [OF this]
  have b: "Number_multiply (Finite (of_int (n * 60))) (Finite 1000) = Finite (of_int (n * 60000))"
    by simp
  from assms(2) have "\<bar>now + n * 60000\<bar> \<le> 2 ^ 53" by simp
  from fl_of_int [OF this]
  have c: "Number_add (Finite (of_int now)) (Finite (of_int (n * 60000)))
      = Finite (of_int (now + n * 60000))"
    by simp
  have d: "Date_new (Finite (of_int (now + n * 60000))) = Some (now + n * 60000)"
    using assms(2) by (rule Date_new_of_int)
  show ?thesis unfolding expiryDate_def a b c d ..
qed

lemma expiryDate_numeral:
  "\<bar>now\<bar> \<le> 8640000000000000 \<Longrightarrow> \<bar>now + numeral w * 60000\<bar> \<le> 8640000000000000 \<Longrightarrow>
   expiryDate now (Finite (numeral w)) = Some (now + numeral w * 60000)"
  using expiryDate_whole [of now "numeral w"] by simp

lemma expiryDate_neg_numeral:
  "\<bar>now\<bar> \<le> 8640000000000000 \<Longrightarrow> \<bar>now + - numeral w * 60000\<bar> \<le> 8640000000000000 \<Longrightarrow>
   expiryDate now (Finite (- numeral w)) = Some (now + - numeral w * 60000)"
  using expiryDate_whole [of now "- numeral w"] by simp

lemma fl_numeral:
  "numeral w \<le> (9007199254740992::int) \<Longrightarrow> fl (numeral w) = Finite (numeral w)"
  using fl_of_int [of "numeral w"] by simp

lemma fl_dyadic:
  assumes "\<bar>m\<bar> < 2 ^ 53" and "- 1074 \<le> j" and "j \<le> 0"
  shows "fl (of_int m * 2 powi j) = Finite (of_int m * 2 powi j)"
proof -
  from assms(1) have "(of_int \<bar>m\<bar> :: rat) < of_int (2 ^ 53)" by (simp only: of_int_less_iff)
  then have m: "\<bar>of_int m :: rat\<bar> < 2 ^ 53" by simp
  from assms(3) have "(2::rat) powi j \<le> 2 powi 0" by (intro power_int_increasing) simp_all
  then have "\<bar>of_int m * (2::rat) powi j\<bar> \<le> \<bar>of_int m\<bar> * 1"
    unfolding abs_mult by (intro mult_left_mono) simp_all
  with m have "\<bar>of_int m * (2::rat) powi j\<bar> < 2 ^ 1024" by simp
  with round_double_dyadic [OF assms(1,2)] show ?thesis by (simp add: fl_def Let_def)
qed

text \<open>Two expiry dates at the clock value 1700000000000: a validity of 145000000000
  minutes is beyond the range of a \<open>Date\<close>, and a validity of \<open>1 / 131072\<close> of a minute,
  less than a millisecond, is cut off.\<close>

lemma expiryDate_beyond_range: "expiryDate 1700000000000 (Finite 145000000000) = None"
  by (simp add: expiryDate_def fl_numeral Date_new_def)

lemma expiryDate_below_millisecond:
  "expiryDate 1700000000000 (Finite (1 / 131072)) = Some 1700000000000"
proof -
  have a: "fl (15 / 32768) = Finite (15 / 32768)"
    using fl_dyadic [of 15 "- 15"] by (simp add: power_int_minus_divide)
  have b: "fl (1875 / 4096) = Finite (1875 / 4096)"
    using fl_dyadic [of 1875 "- 12"] by (simp add: power_int_minus_divide)
  have c: "fl (6963200000001875 / 4096) = Finite (6963200000001875 / 4096)"
    using fl_dyadic [of 6963200000001875 "- 12"] by (simp add: power_int_minus_divide)
  have d: "\<lfloor>6963200000001875 / 4096 :: rat\<rfloor> = 1700000000000"
    by (rule floor_unique) simp_all
  show ?thesis
    by (simp add: expiryDate_def a b c d Date_new_def integer_part_def)
qed

lemma Date_new_numeral:
  "numeral w \<le> (8640000000000000::int) \<Longrightarrow> Date_new (Finite (numeral w)) = Some (numeral w)"
  using Date_new_of_int [of "numeral w"] by simp

lemma Date_new_zero: "Date_new (Finite 0) = Some 0"
  using Date_new_of_int [of 0] by simp

subsection \<open>The sweep and the lookups\<close>

lemma length_filter_same: "length (filter P xs) = length xs \<Longrightarrow> filter P xs = xs"
proof (induction xs)
  case Nil
  then show ?case by simp
next
  case (Cons x xs)
  have le: "length (filter P xs) \<le> length xs" by (rule length_filter_le)
  from Cons.prems le have px: "P x" by (cases "P x") auto
  with Cons show ?case by simp
qed

lemma cleanExpiredMappings_filter: "cleanExpiredMappings now ms = filter (live now) ms"
  unfolding cleanExpiredMappings_def Let_def
  using length_filter_same [of "live now" ms] by auto

lemma taken_iff: "taken ms c \<longleftrightarrow> c \<in> shortcode ` set ms"
  by (auto simp: taken_def list_ex_iff)

lemma taken_filter: "taken (filter P ms) c \<Longrightarrow> taken ms c"
  by (auto simp: taken_iff)

lemma deleteMappingByShortcode_filter:
  "snd (deleteMappingByShortcode c ms) = filter (\<lambda>m. shortcode m \<noteq> c) ms"
  unfolding deleteMappingByShortcode_def Let_def
  using length_filter_same [of "\<lambda>m. shortcode m \<noteq> c" ms] by auto

lemma find_code_None: "find (\<lambda>m. shortcode m = c) ms = None \<longleftrightarrow> \<not> taken ms c"
  by (auto simp: find_None_iff taken_iff)

lemma find_Some_mem: "find P xs = Some x \<Longrightarrow> x \<in> set xs \<and> P x"
  by (induction xs) (auto split: if_splits)

lemma find_append_None: "find P xs = None \<Longrightarrow> find P (xs @ ys) = find P ys"
  by (induction xs) (auto split: if_splits)

subsection \<open>The generation loop\<close>

lemma regenerate_free:
  assumes "regenerate draws ms code k = Some c"
  shows "\<not> taken ms c"
  using assms
proof (induction rule: regenerate.raw_induct [rotated 1, consumes 1])
  case (1 regen draws ms code k c)
  then show ?case by (auto split: if_splits)
qed

lemma regenerate_returns:
  "\<not> taken ms (generateShortcode draws (k + 6 * n)) \<Longrightarrow> \<exists>c. regenerate draws ms code k = Some c"
proof (induction n arbitrary: code k)
  case 0
  show ?case
  proof (cases "taken ms code")
    case True
    with 0 show ?thesis
      by (subst regenerate.simps, subst regenerate.simps) simp
  next
    case False
    then show ?thesis by (subst regenerate.simps) simp
  qed
next
  case (Suc n)
  show ?case
  proof (cases "taken ms code")
    case True
    from Suc.prems have "\<not> taken ms (generateShortcode draws ((k + 6) + 6 * n))"
      by (simp add: add.assoc)
    from Suc.IH [OF this, of "generateShortcode draws k"] True show ?thesis
      by (subst regenerate.simps) simp
  next
    case False
    then show ?thesis by (subst regenerate.simps) simp
  qed
qed

lemma regenerate_first_returns:
  assumes "\<not> taken ms (generateShortcode draws (6 * n))"
  shows "\<exists>c. regenerate draws ms (generateShortcode draws 0) 6 = Some c"
proof (cases n)
  case 0
  with assms show ?thesis by (subst regenerate.simps) simp
next
  case (Suc j)
  with assms have "\<not> taken ms (generateShortcode draws (6 + 6 * j))" by simp
  then show ?thesis by (rule regenerate_returns)
qed

text \<open>What \<open>shortenUrl\<close> returns once the code is chosen.\<close>

lemma shortenUrl_chosen:
  assumes "URL_parses (req_originalUrl request)"
    and "chooseShortcode draws (cleanExpiredMappings t_clean stored) (req_customShortcode request)
           = Some (Inr code)"
  shows "shortenUrl URL_parses BASE_URL draws t_clean t_now t_created request stored =
     Some (Inr \<lparr>res_shortUrl = BASE_URL @ ''/'' @ code, res_shortcode = code,
             res_originalUrl = req_originalUrl request,
             res_expiresAt = expiryDate t_now (validityMinutes_of (req_validityMinutes request)),
             res_createdAt = Date_new (Finite (of_int t_created))\<rparr>,
           cleanExpiredMappings t_clean stored @
           [\<lparr>shortcode = code, originalUrl = req_originalUrl request,
             expiresAt = expiryDate t_now (validityMinutes_of (req_validityMinutes request)),
             createdAt = Date_new (Finite (of_int t_created)), accessCount = 0\<rparr>])"
  using assms by (simp add: shortenUrl_def isValidUrl_def Let_def)

lemma shortenUrl_Inr_chosen:
  assumes "shortenUrl URL_parses BASE_URL draws t_clean t_now t_created request stored
             = Some (Inr response, stored')"
  shows "URL_parses (req_originalUrl request) \<and>
         chooseShortcode draws (cleanExpiredMappings t_clean stored) (req_customShortcode request)
           = Some (Inr (res_shortcode response))"
  using assms
  by (auto simp: shortenUrl_def isValidUrl_def Let_def split: if_splits option.splits sum.splits)

lemma chooseShortcode_free:
  assumes "chooseShortcode draws ms custom = Some (Inr code)"
  shows "\<not> taken ms code"
  using assms regenerate_free
  by (auto simp: chooseShortcode_def split: option.splits if_splits)

lemma sample_code: "generateShortcode sample_draws 0 = ''abcdef''"
  by (simp add: generateShortcode_def sample_draws_def charAt_def chars_def upt_conv_Cons)

subsection \<open>The shape of one operation\<close>

lemma shortenUrl_shape:
  assumes "shortenUrl URL_parses BASE_URL draws t_clean t_now t_created request s = Some (r, s')"
  shows "s' = s \<or> s' = filter (live t_clean) s \<or>
         (\<exists>new. s' = filter (live t_clean) s @ [new] \<and> accessCount new = 0 \<and>
                \<not> taken (filter (live t_clean) s) (shortcode new))"
proof (cases "URL_parses (req_originalUrl request)")
  case False
  with assms show ?thesis by (simp add: shortenUrl_def isValidUrl_def)
next
  case True
  show ?thesis
  proof (cases "chooseShortcode draws (cleanExpiredMappings t_clean s) (req_customShortcode request)")
    case None
    with True assms show ?thesis by (simp add: shortenUrl_def isValidUrl_def)
  next
    case (Some a)
    show ?thesis
    proof (cases a)
      case (Inl e)
      with Some True assms show ?thesis
        by (simp add: shortenUrl_def isValidUrl_def cleanExpiredMappings_filter)
    next
      case (Inr code)
      with Some have ch: "chooseShortcode draws (cleanExpiredMappings t_clean s)
          (req_customShortcode request) = Some (Inr code)" by simp
      then have "\<not> taken (filter (live t_clean) s) code"
        using chooseShortcode_free [OF ch] by (simp add: cleanExpiredMappings_filter)
      moreover from shortenUrl_chosen [where URL_parses = URL_parses and request = request
          and draws = draws and t_clean = t_clean and stored = s and code = code
          and BASE_URL = BASE_URL and t_now = t_now and t_created = t_created] True ch assms
      have "s' = filter (live t_clean) s @
          [\<lparr>shortcode = code, originalUrl = req_originalUrl request,
            expiresAt = expiryDate t_now (validityMinutes_of (req_validityMinutes request)),
            createdAt = Date_new (Finite (of_int t_created)), accessCount = 0\<rparr>]"
        by (simp add: cleanExpiredMappings_filter)
      ultimately show ?thesis by simp
    qed
  qed
qed

lemma resolveShortcode_shape:
  "snd (snd (resolveShortcode t_clean t_check code s)) = filter (live t_clean) s \<or>
   snd (snd (resolveShortcode t_clean t_check code s)) = incrementAccess code (filter (live t_clean) s)"
  by (simp add: resolveShortcode_def Let_def cleanExpiredMappings_filter split: option.splits)

lemma step_shape:
  assumes "step s s'"
  shows "(\<exists>keep. s' = filter keep s) \<or>
         (\<exists>t code. s' = incrementAccess code (filter (live t) s)) \<or>
         (\<exists>t new. s' = filter (live t) s @ [new] \<and> accessCount new = 0 \<and>
                  \<not> taken (filter (live t) s) (shortcode new))"
  using assms
proof cases
  case (create URL_parses BASE_URL draws t_clean t_now t_created request r)
  from shortenUrl_shape [OF this] consider "s' = filter (\<lambda>_. True) s"
    | "s' = filter (live t_clean) s"
    | new where "s' = filter (live t_clean) s @ [new]" "accessCount new = 0"
        "\<not> taken (filter (live t_clean) s) (shortcode new)"
    by auto
  then show ?thesis by cases blast+
next
  case (resolve t_clean t_check code url b)
  with resolveShortcode_shape [of t_clean t_check code s] show ?thesis by auto
next
  case (list t_clean ms)
  then have "s' = filter (live t_clean) s"
    by (auto simp: getAllMappings_def Let_def cleanExpiredMappings_filter)
  then show ?thesis by blast
next
  case (delete code removed)
  with deleteMappingByShortcode_filter [of code s] have "s' = filter (\<lambda>m. shortcode m \<noteq> code) s"
    by simp
  then show ?thesis by blast
qed

subsection \<open>Distinct shortcodes\<close>

lemma incrementAccess_shortcodes: "map shortcode (incrementAccess code ms) = map shortcode ms"
  by (induction ms) auto

lemma incrementAccess_append:
  "\<not> taken xs code \<Longrightarrow> incrementAccess code (xs @ ys) = xs @ incrementAccess code ys"
  by (induction xs) (simp_all add: taken_def)

lemma step_distinct:
  assumes "step s s'" and "distinct (map shortcode s)"
  shows "distinct (map shortcode s')"
proof -
  from step_shape [OF assms(1)] consider
      keep where "s' = filter keep s"
    | t code where "s' = incrementAccess code (filter (live t) s)"
    | t new where "s' = filter (live t) s @ [new]"
        "\<not> taken (filter (live t) s) (shortcode new)"
    by blast
  then show ?thesis
  proof cases
    case 1
    with assms(2) show ?thesis by (simp add: distinct_map_filter)
  next
    case 2
    with assms(2) show ?thesis by (simp add: incrementAccess_shortcodes distinct_map_filter)
  next
    case 3
    from assms(2) have "distinct (map shortcode (filter (live t) s))"
      by (rule distinct_map_filter)
    with 3 show ?thesis by (simp add: taken_iff)
  qed
qed

lemma reachable_distinct: "reachable s \<Longrightarrow> distinct (map shortcode s)"
  by (induction rule: reachable.induct) (simp_all add: step_distinct)

lemma distinct_one_live:
  "distinct (map shortcode s) \<Longrightarrow> length (filter (\<lambda>m. shortcode m = c \<and> live t m) s) \<le> 1"
proof (induction s)
  case Nil
  then show ?case by simp
next
  case (Cons m s)
  show ?case
  proof (cases "shortcode m = c")
    case True
    with Cons.prems have "\<forall>x \<in> set s. shortcode x \<noteq> c" by (auto simp: image_iff)
    then have "filter (\<lambda>m. shortcode m = c \<and> live t m) s = []"
      by (simp add: filter_empty_conv)
    then show ?thesis by simp
  next
    case False
    with Cons show ?thesis by simp
  qed
qed

lemma distinct_at_most_one_live: "distinct (map shortcode s) \<Longrightarrow> at_most_one_live t s"
  unfolding at_most_one_live_def list_all_iff using distinct_one_live by blast

lemma at_most_one_live_tail:
  assumes "at_most_one_live t (m # s)"
  shows "at_most_one_live t s"
  unfolding at_most_one_live_def list_all_iff
proof
  fix c
  assume "c \<in> set (map shortcode s)"
  then have mem: "c \<in> set (map shortcode (m # s))" by simp
  from assms have "\<forall>c \<in> set (map shortcode (m # s)).
      length (filter (\<lambda>x. shortcode x = c \<and> live t x) (m # s)) \<le> 1"
    unfolding at_most_one_live_def list_all_iff .
  with mem have "length (filter (\<lambda>x. shortcode x = c \<and> live t x) (m # s)) \<le> 1"
    by blast
  moreover have "length (filter (\<lambda>x. shortcode x = c \<and> live t x) s)
      \<le> length (filter (\<lambda>x. shortcode x = c \<and> live t x) (m # s))"
    by simp
  ultimately show "length (filter (\<lambda>x. shortcode x = c \<and> live t x) s) \<le> 1"
    by (rule order_trans [rotated])
qed

lemma always_one_live_distinct:
  "(\<And>t. at_most_one_live t s) \<Longrightarrow> distinct (map shortcode s)"
proof (induction s)
  case Nil
  then show ?case by simp
next
  case (Cons m s)
  have tail: "distinct (map shortcode s)"
  proof (rule Cons.IH)
    fix t
    from Cons.prems [of t] show "at_most_one_live t s" by (rule at_most_one_live_tail)
  qed
  have "shortcode m \<notin> shortcode ` set s"
  proof
    assume "shortcode m \<in> shortcode ` set s"
    then obtain x where x: "x \<in> set s" "shortcode x = shortcode m" by auto
    define t where "t = min (Date_value (expiresAt m)) (Date_value (expiresAt x)) - 1"
    have lm: "live t m" and lx: "live t x" by (simp_all add: live_def t_def)
    from x lx have "x \<in> set (filter (\<lambda>y. shortcode y = shortcode m \<and> live t y) s)" by simp
    then have "0 < length (filter (\<lambda>y. shortcode y = shortcode m \<and> live t y) s)"
      by (rule length_pos_if_in_set)
    with lm have "\<not> length (filter (\<lambda>y. shortcode y = shortcode m \<and> live t y) (m # s)) \<le> 1"
      by simp
    moreover from Cons.prems [of t]
    have "length (filter (\<lambda>y. shortcode y = shortcode m \<and> live t y) (m # s)) \<le> 1"
      by (simp add: at_most_one_live_def)
    ultimately show False by simp
  qed
  with tail show ?case by simp
qed

subsection \<open>Records with raised counts\<close>







subsection \<open>Creating\<close>

text \<open>
  C1, as stated, fails at both ends of the validity. With 145000000000 minutes the
  expiry time is beyond the largest time value of a \<open>Date\<close>: \<open>expiresAt\<close> is an Invalid
  Date that is stored as \<open>null\<close>, and the sweep of the resolve that follows reads \<open>null\<close>
  as the epoch and drops the mapping. With \<open>1 / 131072\<close> of a minute, less than a
  millisecond, \<open>new Date\<close> cuts the expiry time off to \<open>now\<close>, and the sweep drops the
  mapping as well. In both cases resolve returns null.
\<close>

theorem create_then_resolve_counterexample:
  "sample_URL_parses ''https://example.com'' \<and> (0::rat) < 145000000000 \<and>
   shortenUrl sample_URL_parses ''http://localhost:3000'' sample_draws
     1700000000000 1700000000000 1700000000000
     \<lparr>req_originalUrl = ''https://example.com'', req_customShortcode = None,
      req_validityMinutes = Some (Finite 145000000000)\<rparr> []
   = Some (Inr \<lparr>res_shortUrl = ''http://localhost:3000/abcdef'', res_shortcode = ''abcdef'',
             res_originalUrl = ''https://example.com'', res_expiresAt = None,
             res_createdAt = Some 1700000000000\<rparr>,
           [\<lparr>shortcode = ''abcdef'', originalUrl = ''https://example.com'',
             expiresAt = None, createdAt = Some 1700000000000, accessCount = 0\<rparr>]) \<and>
   resolveShortcode 1700000000000 1700000000000 ''abcdef''
     [\<lparr>shortcode = ''abcdef'', originalUrl = ''https://example.com'',
       expiresAt = None, createdAt = Some 1700000000000, accessCount = 0\<rparr>]
   = (None, Not_found, []) \<and>
   (0::rat) < 1 / 131072 \<and>
   shortenUrl sample_URL_parses ''http://localhost:3000'' sample_draws
     1700000000000 1700000000000 1700000000000
     \<lparr>req_originalUrl = ''https://example.com'', req_customShortcode = None,
      req_validityMinutes = Some (Finite (1 / 131072))\<rparr> []
   = Some (Inr \<lparr>res_shortUrl = ''http://localhost:3000/abcdef'', res_shortcode = ''abcdef'',
             res_originalUrl = ''https://example.com'', res_expiresAt = Some 1700000000000,
             res_createdAt = Some 1700000000000\<rparr>,
           [\<lparr>shortcode = ''abcdef'', originalUrl = ''https://example.com'',
             expiresAt = Some 1700000000000, createdAt = Some 1700000000000,
             accessCount = 0\<rparr>]) \<and>
   resolveShortcode 1700000000000 1700000000000 ''abcdef''
     [\<lparr>shortcode = ''abcdef'', originalUrl = ''https://example.com'',
       expiresAt = Some 1700000000000, createdAt = Some 1700000000000, accessCount = 0\<rparr>]
   = (None, Not_found, [])"
  by (simp add: sample_URL_parses_def shortenUrl_def isValidUrl_def
      cleanExpiredMappings_def chooseShortcode_def regenerate.simps taken_def sample_code
      validityMinutes_of_def ToBoolean_def expiryDate_beyond_range expiryDate_below_millisecond
      Date_new_numeral Let_def resolveShortcode_def live_def Date_value_def)

text \<open>
  C1, amended. For every URL \<open>u\<close> that parses and every validity \<open>v > 0\<close> whose expiry
  time, as line 120 computes it (\<open>now + v * 60 * 1000\<close> in double arithmetic, cut to
  whole milliseconds by \<open>new Date\<close>), is a valid time later than \<open>now\<close>, \<open>shortenUrl\<close>
  without a custom code returns as soon as one generated code is free, and resolving the
  returned shortcode at the same time returns \<open>u\<close>. That covers every validity that is a
  whole number \<open>n > 0\<close> of minutes with \<open>now + n\<close> minutes a time value that a \<open>Date\<close>
  can hold (at most 8.64e15 ms from the epoch, as the clock value \<open>now\<close> is).
\<close>

theorem create_then_resolve_roundtrip:
  assumes "URL_parses u"
    and "\<not> taken (cleanExpiredMappings now stored) (generateShortcode draws (6 * k))"
  shows "(0 < q \<and> expiryDate now (Finite q) = Some t \<and> now < t \<longrightarrow>
           (\<exists>response stored'.
              shortenUrl URL_parses BASE_URL draws now now now
                \<lparr>req_originalUrl = u, req_customShortcode = None,
                 req_validityMinutes = Some (Finite q)\<rparr> stored
                = Some (Inr response, stored') \<and>
              fst (resolveShortcode now now (res_shortcode response) stored') = Some u)) \<and>
         (0 < n \<and> \<bar>now\<bar> \<le> 8640000000000000 \<and> now + n * 60000 \<le> 8640000000000000 \<longrightarrow>
           (\<exists>response stored'.
              shortenUrl URL_parses BASE_URL draws now now now
                \<lparr>req_originalUrl = u, req_customShortcode = None,
                 req_validityMinutes = Some (Finite (of_int n))\<rparr> stored
                = Some (Inr response, stored') \<and>
              fst (resolveShortcode now now (res_shortcode response) stored') = Some u))"
proof -
  define ms where "ms = cleanExpiredMappings now stored"
  from assms(2) obtain c where
    reg: "regenerate draws ms (generateShortcode draws 0) 6 = Some c"
    unfolding ms_def using regenerate_first_returns by blast
  then have free: "\<not> taken ms c" by (rule regenerate_free)
  from reg have ch: "chooseShortcode draws ms None = Some (Inr c)"
    by (simp add: chooseShortcode_def)
  have general: "\<exists>response stored'.
      shortenUrl URL_parses BASE_URL draws now now now
        \<lparr>req_originalUrl = u, req_customShortcode = None,
         req_validityMinutes = Some (Finite x)\<rparr> stored
        = Some (Inr response, stored') \<and>
      fst (resolveShortcode now now (res_shortcode response) stored') = Some u"
    if pos: "0 < x" and ex: "expiryDate now (Finite x) = Some e" and later: "now < e" for x e
  proof -
    from pos have vm: "validityMinutes_of (Some (Finite x)) = Finite x"
      by (simp add: validityMinutes_of_def ToBoolean_def)
    define new where "new = \<lparr>shortcode = c, originalUrl = u, expiresAt = Some e,
      createdAt = Date_new (Finite (of_int now)), accessCount = 0\<rparr>"
    have first: "shortenUrl URL_parses BASE_URL draws now now now
         \<lparr>req_originalUrl = u, req_customShortcode = None,
          req_validityMinutes = Some (Finite x)\<rparr> stored
         = Some (Inr \<lparr>res_shortUrl = BASE_URL @ ''/'' @ c, res_shortcode = c,
               res_originalUrl = u, res_expiresAt = Some e,
               res_createdAt = Date_new (Finite (of_int now))\<rparr>, ms @ [new])"
      using shortenUrl_chosen [where URL_parses = URL_parses
          and request = "\<lparr>req_originalUrl = u, req_customShortcode = None,
            req_validityMinutes = Some (Finite x)\<rparr>"
          and draws = draws and t_clean = now and stored = stored and code = c
          and BASE_URL = BASE_URL and t_now = now and t_created = now] assms(1) ch
      unfolding ms_def new_def by (simp add: vm ex)
    have ev: "Date_value (expiresAt new) = e" by (simp add: new_def Date_value_def)
    with later have lv: "live now new" by (simp add: live_def)
    have "filter (live now) ms = ms" by (simp add: ms_def cleanExpiredMappings_filter)
    with lv have sweep: "cleanExpiredMappings now (ms @ [new]) = ms @ [new]"
      by (simp add: cleanExpiredMappings_filter)
    from free have "find (\<lambda>m. shortcode m = c) ms = None" by (simp add: find_code_None)
    then have found: "find (\<lambda>m. shortcode m = c) (ms @ [new]) = Some new"
      by (simp add: find_append_None new_def)
    have "originalUrl new = u" by (simp add: new_def)
    with sweep found later ev have "fst (resolveShortcode now now c (ms @ [new])) = Some u"
      by (simp add: resolveShortcode_def Let_def)
    with first show ?thesis by force
  qed
  show ?thesis
  proof (intro conjI impI)
    assume "0 < q \<and> expiryDate now (Finite q) = Some t \<and> now < t"
    then show "\<exists>response stored'.
        shortenUrl URL_parses BASE_URL draws now now now
          \<lparr>req_originalUrl = u, req_customShortcode = None,
           req_validityMinutes = Some (Finite q)\<rparr> stored
          = Some (Inr response, stored') \<and>
        fst (resolveShortcode now now (res_shortcode response) stored') = Some u"
      using general [of q t] by simp
  next
    assume h: "0 < n \<and> \<bar>now\<bar> \<le> 8640000000000000 \<and> now + n * 60000 \<le> 8640000000000000"
    then have "0 < n" "- 8640000000000000 \<le> now" "now + n * 60000 \<le> 8640000000000000"
      by (simp_all add: abs_le_iff)
    then have "\<bar>now + n * 60000\<bar> \<le> 8640000000000000" by (simp add: abs_le_iff)
    with h have "expiryDate now (Finite (of_int n)) = Some (now + n * 60000)"
      by (intro expiryDate_whole) simp_all
    moreover from h have "(0::rat) < of_int n" and "now < now + n * 60000" by simp_all
    ultimately show "\<exists>response stored'.
        shortenUrl URL_parses BASE_URL draws now now now
          \<lparr>req_originalUrl = u, req_customShortcode = None,
           req_validityMinutes = Some (Finite (of_int n))\<rparr> stored
          = Some (Inr response, stored') \<and>
        fst (resolveShortcode now now (res_shortcode response) stored') = Some u"
      using general [of "of_int n" "now + n * 60000"] by simp
  qed
qed

theorem create_then_resolve_roundtrip_witness:
  "sample_URL_parses ''https://example.com'' \<and>
   \<not> taken (cleanExpiredMappings 1700000000000 [sample_mapping ''abcdef'' 1700000000001])
       (generateShortcode sample_draws (6 * 1)) \<and>
   (0::rat) < 1 / 2 \<and> expiryDate 1700000000000 (Finite (1 / 2)) = Some 1700000030000 \<and>
   (1700000000000::int) < 1700000030000 \<and>
   (\<exists>response stored'.
     shortenUrl sample_URL_parses ''http://localhost:3000'' sample_draws
       1700000000000 1700000000000 1700000000000
       \<lparr>req_originalUrl = ''https://example.com'', req_customShortcode = None,
        req_validityMinutes = Some (Finite (1 / 2))\<rparr>
       [sample_mapping ''abcdef'' 1700000000001]
       = Some (Inr response, stored') \<and>
     fst (resolveShortcode 1700000000000 1700000000000 (res_shortcode response) stored')
       = Some ''https://example.com'') \<and>
   (0::int) < 30 \<and> \<bar>1700000000000\<bar> \<le> (8640000000000000::int) \<and>
   1700000000000 + 30 * 60000 \<le> (8640000000000000::int) \<and>
   (\<exists>response stored'.
     shortenUrl sample_URL_parses ''http://localhost:3000'' sample_draws
       1700000000000 1700000000000 1700000000000
       \<lparr>req_originalUrl = ''https://example.com'', req_customShortcode = None,
        req_validityMinutes = Some (Finite (of_int 30))\<rparr>
       [sample_mapping ''abcdef'' 1700000000001]
       = Some (Inr response, stored') \<and>
     fst (resolveShortcode 1700000000000 1700000000000 (res_shortcode response) stored')
       = Some ''https://example.com'')"
proof -
  have p: "sample_URL_parses ''https://example.com''" by (simp add: sample_URL_parses_def)
  have g: "generateShortcode sample_draws (6 * 1) = ''ghijkl''"
    by (simp add: generateShortcode_def sample_draws_def charAt_def chars_def upt_conv_Cons)
  have f: "\<not> taken (cleanExpiredMappings 1700000000000 [sample_mapping ''abcdef'' 1700000000001])
       (generateShortcode sample_draws (6 * 1))"
    unfolding g by (simp add: cleanExpiredMappings_def taken_def sample_mapping_def)
  have h1: "(0::rat) < 1 / 2" by simp
  have h2: "expiryDate 1700000000000 (Finite (1 / 2)) = Some 1700000030000"
    by (simp add: expiryDate_def fl_numeral Date_new_numeral)
  have h3: "(1700000000000::int) < 1700000030000" by simp
  have v: "(0::int) < 30" by simp
  have c: "\<bar>1700000000000\<bar> \<le> (8640000000000000::int)" by simp
  have d: "1700000000000 + 30 * 60000 \<le> (8640000000000000::int)" by simp
  note r = create_then_resolve_roundtrip [where URL_parses = sample_URL_parses
      and u = "''https://example.com''" and now = 1700000000000
      and stored = "[sample_mapping ''abcdef'' 1700000000001]" and draws = sample_draws
      and k = 1 and BASE_URL = "''http://localhost:3000''" and q = "1 / 2"
      and t = 1700000030000 and n = 30, OF p f]
  from h1 h2 h3 have a1: "(0::rat) < 1 / 2 \<and>
      expiryDate 1700000000000 (Finite (1 / 2)) = Some 1700000030000 \<and>
      (1700000000000::int) < 1700000030000"
    by (intro conjI)
  from v c d have a2: "(0::int) < 30 \<and> \<bar>1700000000000\<bar> \<le> (8640000000000000::int) \<and>
      1700000000000 + 30 * 60000 \<le> (8640000000000000::int)"
    by (intro conjI)
  note r1 = r [THEN conjunct1, THEN mp, OF a1]
  note r2 = r [THEN conjunct2, THEN mp, OF a2]
  from p f h1 h2 h3 r1 v c d r2 show ?thesis by (intro conjI)
qed

text \<open>
  C2, as stated, fails: \<open>request.validityMinutes || 30\<close> replaces a validity of 0 by the
  default, so the mapping created with \<open>validityMinutes = 0\<close> expires 30 minutes after
  \<open>now\<close>; resolve returns its URL and the list that follows contains it.
\<close>

theorem zero_validity_counterexample:
  "shortenUrl sample_URL_parses ''http://localhost:3000'' sample_draws 50 50 50
     \<lparr>req_originalUrl = ''https://example.com'', req_customShortcode = None,
      req_validityMinutes = Some (Finite 0)\<rparr> []
   = Some (Inr \<lparr>res_shortUrl = ''http://localhost:3000/abcdef'', res_shortcode = ''abcdef'',
             res_originalUrl = ''https://example.com'', res_expiresAt = Some 1800050,
             res_createdAt = Some 50\<rparr>,
           [\<lparr>shortcode = ''abcdef'', originalUrl = ''https://example.com'',
             expiresAt = Some 1800050, createdAt = Some 50, accessCount = 0\<rparr>]) \<and>
   resolveShortcode 50 50 ''abcdef''
     [\<lparr>shortcode = ''abcdef'', originalUrl = ''https://example.com'',
       expiresAt = Some 1800050, createdAt = Some 50, accessCount = 0\<rparr>]
   = (Some ''https://example.com'', Resolved,
      [\<lparr>shortcode = ''abcdef'', originalUrl = ''https://example.com'',
        expiresAt = Some 1800050, createdAt = Some 50, accessCount = 1\<rparr>]) \<and>
   getAllMappings 50
     [\<lparr>shortcode = ''abcdef'', originalUrl = ''https://example.com'',
       expiresAt = Some 1800050, createdAt = Some 50, accessCount = 1\<rparr>]
   = ([\<lparr>shortcode = ''abcdef'', originalUrl = ''https://example.com'',
        expiresAt = Some 1800050, createdAt = Some 50, accessCount = 1\<rparr>],
      [\<lparr>shortcode = ''abcdef'', originalUrl = ''https://example.com'',
        expiresAt = Some 1800050, createdAt = Some 50, accessCount = 1\<rparr>])"
  by (simp add: sample_URL_parses_def shortenUrl_def isValidUrl_def
      cleanExpiredMappings_def chooseShortcode_def regenerate.simps taken_def sample_code
      validityMinutes_of_def ToBoolean_def expiryDate_numeral Date_new_numeral Let_def
      resolveShortcode_def live_def Date_value_def round_double_one getAllMappings_def)

text \<open>
  C2, amended. A mapping that \<open>shortenUrl\<close> creates is appended to the swept store with
  the expiry time of the response, which is the date that line 120 computes from
  \<open>validityMinutes || 30\<close> in double arithmetic. A supplied validity of 0, like \<open>NaN\<close>, is
  replaced by the default of 30 minutes: \<open>expiresAt\<close> is \<open>now\<close> + 30 minutes (when a
  \<open>Date\<close> holds that time), the mapping is live, resolve of its shortcode at the time
  \<open>now\<close> returns its URL and the list that follows contains it. For every other supplied
  validity that is a whole number \<open>n\<close> of minutes with an expiry time \<open>now + n\<close> minutes
  that a \<open>Date\<close> holds, \<open>expiresAt\<close> is that time. When such an \<open>n\<close> is negative, the
  mapping is expired from its creation: at any time \<open>t\<close> from \<open>now\<close> on, resolve of its
  shortcode returns null and the list that follows has no record of that shortcode. The
  clock value \<open>now\<close> is a time value, at most 8.64e15 ms from the epoch.
\<close>

theorem created_expiry_time:
  assumes "shortenUrl URL_parses BASE_URL draws t_clean now t_created request stored
             = Some (Inr response, stored')"
    and "\<bar>now\<bar> \<le> 8640000000000000"
  shows "(\<exists>new. stored' = cleanExpiredMappings t_clean stored @ [new] \<and>
            shortcode new = res_shortcode response \<and>
            expiresAt new = res_expiresAt response) \<and>
         res_expiresAt response
           = expiryDate now (validityMinutes_of (req_validityMinutes request)) \<and>
         ((req_validityMinutes request = Some (Finite 0) \<or> req_validityMinutes request = Some NaN)
            \<and> now + 1800000 \<le> 8640000000000000 \<longrightarrow>
            res_expiresAt response = Some (now + 1800000) \<and>
            fst (resolveShortcode now now (res_shortcode response) stored')
              = Some (req_originalUrl request) \<and>
            taken (fst (getAllMappings now
                  (snd (snd (resolveShortcode now now (res_shortcode response) stored')))))
                (res_shortcode response)) \<and>
         (\<forall>n. req_validityMinutes request = Some (Finite (of_int n)) \<and> n \<noteq> 0 \<and>
              \<bar>now + n * 60000\<bar> \<le> 8640000000000000 \<longrightarrow>
            res_expiresAt response = Some (now + n * 60000)) \<and>
         (\<forall>n t. req_validityMinutes request = Some (Finite (of_int n)) \<and> n < 0 \<and>
              \<bar>now + n * 60000\<bar> \<le> 8640000000000000 \<and> now \<le> t \<longrightarrow>
            fst (resolveShortcode t t (res_shortcode response) stored') = None \<and>
            \<not> taken (fst (getAllMappings t
                  (snd (snd (resolveShortcode t t (res_shortcode response) stored')))))
                (res_shortcode response))"
proof -
  define ms where "ms = cleanExpiredMappings t_clean stored"
  define c where "c = res_shortcode response"
  define e where "e = expiryDate now (validityMinutes_of (req_validityMinutes request))"
  define new where "new = \<lparr>shortcode = c, originalUrl = req_originalUrl request,
    expiresAt = e, createdAt = Date_new (Finite (of_int t_created)), accessCount = 0\<rparr>"
  from shortenUrl_Inr_chosen [OF assms(1)]
  have p: "URL_parses (req_originalUrl request)"
    and ch: "chooseShortcode draws ms (req_customShortcode request) = Some (Inr c)"
    by (simp_all add: ms_def c_def)
  from shortenUrl_chosen [where URL_parses = URL_parses and request = request
      and draws = draws and t_clean = t_clean and stored = stored and code = c
      and BASE_URL = BASE_URL and t_now = now and t_created = t_created] p ch assms(1)
  have r: "res_expiresAt response = e" and s: "stored' = ms @ [new]"
    by (auto simp: ms_def e_def new_def)
  from ch have free: "\<not> taken ms c" by (rule chooseShortcode_free)
  have whole: "e = Some (now + n * 60000)"
    if "req_validityMinutes request = Some (Finite (of_int n))" "n \<noteq> 0"
      "\<bar>now + n * 60000\<bar> \<le> 8640000000000000" for n
  proof -
    from that(1,2) have "validityMinutes_of (req_validityMinutes request) = Finite (of_int n)"
      by (simp add: validityMinutes_of_def ToBoolean_def)
    with expiryDate_whole [OF assms(2) that(3)] show ?thesis by (simp add: e_def)
  qed
  have part1: "\<exists>new. stored' = cleanExpiredMappings t_clean stored @ [new] \<and>
            shortcode new = res_shortcode response \<and> expiresAt new = res_expiresAt response"
    using s r by (intro exI [of _ new]) (simp add: ms_def new_def c_def)
  have part2: "res_expiresAt response = Some (now + 1800000) \<and>
            fst (resolveShortcode now now c stored') = Some (req_originalUrl request) \<and>
            taken (fst (getAllMappings now (snd (snd (resolveShortcode now now c stored'))))) c"
    if h: "(req_validityMinutes request = Some (Finite 0) \<or> req_validityMinutes request = Some NaN)
            \<and> now + 1800000 \<le> 8640000000000000"
  proof -
    from h have vm: "validityMinutes_of (req_validityMinutes request) = Finite (of_int 30)"
      by (auto simp: validityMinutes_of_def ToBoolean_def)
    from h have "now + 30 * 60000 \<le> 8640000000000000" by simp
    moreover from assms(2) have "- 8640000000000000 \<le> now + 30 * 60000" by simp
    ultimately have b: "\<bar>now + 30 * 60000\<bar> \<le> 8640000000000000" by (simp only: abs_le_iff) simp
    have "expiryDate now (Finite (of_int 30)) = Some (now + 30 * 60000)"
      using assms(2) b by (rule expiryDate_whole)
    with vm have ev: "e = Some (now + 1800000)" by (simp add: e_def)
    then have lv: "live now new" by (simp add: live_def new_def Date_value_def)
    from free have nt: "\<not> taken (filter (live now) ms) c" using taken_filter by blast
    then have keep: "find (\<lambda>m. shortcode m = c) (filter (live now) ms) = None"
      by (simp add: find_code_None)
    then have found: "find (\<lambda>m. shortcode m = c) (filter (live now) ms @ [new]) = Some new"
      by (simp add: find_append_None new_def)
    from lv have sweep: "cleanExpiredMappings now stored' = filter (live now) ms @ [new]"
      by (simp add: s cleanExpiredMappings_filter)
    from ev have nl: "\<not> Date_value (expiresAt new) \<le> now"
      by (simp add: new_def Date_value_def)
    from sweep found nl
    have res: "resolveShortcode now now c stored'
        = (Some (originalUrl new), Resolved, incrementAccess c (filter (live now) ms @ [new]))"
      by (simp add: resolveShortcode_def Let_def)
    define new' where "new' = new\<lparr>accessCount := round_double (accessCount new + 1)\<rparr>"
    from nt have inc: "incrementAccess c (filter (live now) ms @ [new])
        = filter (live now) ms @ [new']"
      by (simp add: incrementAccess_append new_def new'_def)
    from lv have "live now new'" by (simp add: live_def new'_def)
    then have "filter (live now) (filter (live now) ms @ [new']) = filter (live now) ms @ [new']"
      by simp
    then have "fst (getAllMappings now (filter (live now) ms @ [new']))
        = filter (live now) ms @ [new']"
      by (simp add: getAllMappings_def Let_def cleanExpiredMappings_filter)
    moreover have "taken (filter (live now) ms @ [new']) c"
      by (simp add: taken_iff new'_def new_def)
    ultimately have "taken (fst (getAllMappings now
        (incrementAccess c (filter (live now) ms @ [new])))) c"
      by (simp add: inc)
    with res r ev show ?thesis by (simp add: new_def)
  qed
  have part3: "\<forall>n. req_validityMinutes request = Some (Finite (of_int n)) \<and> n \<noteq> 0 \<and>
              \<bar>now + n * 60000\<bar> \<le> 8640000000000000 \<longrightarrow>
            res_expiresAt response = Some (now + n * 60000)"
    using r whole by blast
  have part4: "fst (resolveShortcode t t c stored') = None \<and>
            \<not> taken (fst (getAllMappings t (snd (snd (resolveShortcode t t c stored'))))) c"
    if h: "req_validityMinutes request = Some (Finite (of_int n)) \<and> n < 0 \<and>
              \<bar>now + n * 60000\<bar> \<le> 8640000000000000 \<and> now \<le> t" for n t
  proof -
    from h whole [of n] have "Date_value e = now + n * 60000"
      by (simp add: Date_value_def)
    with h have "\<not> live t new" by (simp add: live_def new_def)
    then have sweep: "cleanExpiredMappings t stored' = filter (live t) ms"
      by (simp add: s cleanExpiredMappings_filter)
    from free have nt: "\<not> taken (filter (live t) ms) c" using taken_filter by blast
    then have nf: "find (\<lambda>m. shortcode m = c) (filter (live t) ms) = None"
      by (simp add: find_code_None)
    with sweep have res: "resolveShortcode t t c stored' = (None, Not_found, filter (live t) ms)"
      by (simp add: resolveShortcode_def Let_def)
    have "fst (getAllMappings t (filter (live t) ms)) = filter (live t) ms"
      by (simp add: getAllMappings_def Let_def cleanExpiredMappings_filter)
    with res nt show ?thesis by simp
  qed
  from part2 have part2': "(req_validityMinutes request = Some (Finite 0) \<or>
        req_validityMinutes request = Some NaN) \<and> now + 1800000 \<le> 8640000000000000 \<longrightarrow>
      res_expiresAt response = Some (now + 1800000) \<and>
      fst (resolveShortcode now now c stored') = Some (req_originalUrl request) \<and>
      taken (fst (getAllMappings now (snd (snd (resolveShortcode now now c stored'))))) c"
    by (rule impI)
  from part4 have part4': "\<forall>n t. req_validityMinutes request = Some (Finite (of_int n)) \<and> n < 0 \<and>
        \<bar>now + n * 60000\<bar> \<le> 8640000000000000 \<and> now \<le> t \<longrightarrow>
      fst (resolveShortcode t t c stored') = None \<and>
      \<not> taken (fst (getAllMappings t (snd (snd (resolveShortcode t t c stored'))))) c"
    by (intro allI impI)
  from r have part1': "res_expiresAt response
      = expiryDate now (validityMinutes_of (req_validityMinutes request))"
    by (simp add: e_def)
  from part1 part1' part2' part3 part4' show ?thesis unfolding c_def by (intro conjI)
qed

theorem created_expiry_time_witness:
  "shortenUrl sample_URL_parses ''http://localhost:3000'' sample_draws 50 50 50
     \<lparr>req_originalUrl = ''https://example.com'', req_customShortcode = Some ''mylink'',
      req_validityMinutes = Some (Finite 0)\<rparr> [sample_mapping ''old'' 40]
   = Some (Inr \<lparr>res_shortUrl = ''http://localhost:3000/mylink'', res_shortcode = ''mylink'',
             res_originalUrl = ''https://example.com'', res_expiresAt = Some 1800050,
             res_createdAt = Some 50\<rparr>,
           [\<lparr>shortcode = ''mylink'', originalUrl = ''https://example.com'',
             expiresAt = Some 1800050, createdAt = Some 50, accessCount = 0\<rparr>]) \<and>
   \<bar>50\<bar> \<le> (8640000000000000::int) \<and> 50 + 1800000 \<le> (8640000000000000::int) \<and>
   Some (1800050::int) = Some (50 + 1800000) \<and>
   fst (resolveShortcode 50 50 ''mylink''
     [\<lparr>shortcode = ''mylink'', originalUrl = ''https://example.com'',
       expiresAt = Some 1800050, createdAt = Some 50, accessCount = 0\<rparr>])
     = Some ''https://example.com'' \<and>
   taken (fst (getAllMappings 50 (snd (snd (resolveShortcode 50 50 ''mylink''
     [\<lparr>shortcode = ''mylink'', originalUrl = ''https://example.com'',
       expiresAt = Some 1800050, createdAt = Some 50, accessCount = 0\<rparr>]))))) ''mylink'' \<and>
   shortenUrl sample_URL_parses ''http://localhost:3000'' sample_draws 50 500000 500000
     \<lparr>req_originalUrl = ''https://example.com'', req_customShortcode = Some ''mylink'',
      req_validityMinutes = Some (Finite (- 5))\<rparr> [sample_mapping ''old'' 40]
   = Some (Inr \<lparr>res_shortUrl = ''http://localhost:3000/mylink'', res_shortcode = ''mylink'',
             res_originalUrl = ''https://example.com'', res_expiresAt = Some 200000,
             res_createdAt = Some 500000\<rparr>,
           [\<lparr>shortcode = ''mylink'', originalUrl = ''https://example.com'',
             expiresAt = Some 200000, createdAt = Some 500000, accessCount = 0\<rparr>]) \<and>
   \<bar>500000\<bar> \<le> (8640000000000000::int) \<and> (- 5::int) \<noteq> 0 \<and> (- 5::int) < 0 \<and>
   \<bar>500000 + - 5 * 60000\<bar> \<le> (8640000000000000::int) \<and> (500000::int) \<le> 500000 \<and>
   Some (200000::int) = Some (500000 + - 5 * 60000) \<and>
   fst (resolveShortcode 500000 500000 ''mylink''
     [\<lparr>shortcode = ''mylink'', originalUrl = ''https://example.com'',
       expiresAt = Some 200000, createdAt = Some 500000, accessCount = 0\<rparr>]) = None \<and>
   \<not> taken (fst (getAllMappings 500000 (snd (snd (resolveShortcode 500000 500000 ''mylink''
     [\<lparr>shortcode = ''mylink'', originalUrl = ''https://example.com'',
       expiresAt = Some 200000, createdAt = Some 500000, accessCount = 0\<rparr>]))))) ''mylink''"
proof -
  have c0: "shortenUrl sample_URL_parses ''http://localhost:3000'' sample_draws 50 50 50
     \<lparr>req_originalUrl = ''https://example.com'', req_customShortcode = Some ''mylink'',
      req_validityMinutes = Some (Finite 0)\<rparr> [sample_mapping ''old'' 40]
   = Some (Inr \<lparr>res_shortUrl = ''http://localhost:3000/mylink'', res_shortcode = ''mylink'',
             res_originalUrl = ''https://example.com'', res_expiresAt = Some 1800050,
             res_createdAt = Some 50\<rparr>,
           [\<lparr>shortcode = ''mylink'', originalUrl = ''https://example.com'',
             expiresAt = Some 1800050, createdAt = Some 50, accessCount = 0\<rparr>])"
    by (simp add: sample_URL_parses_def shortenUrl_def isValidUrl_def cleanExpiredMappings_def
        live_def sample_mapping_def Date_value_def chooseShortcode_def isValidShortcode_def
        alnum_def taken_def validityMinutes_of_def ToBoolean_def expiryDate_numeral
        Date_new_numeral Let_def)
  have c5: "shortenUrl sample_URL_parses ''http://localhost:3000'' sample_draws 50 500000 500000
     \<lparr>req_originalUrl = ''https://example.com'', req_customShortcode = Some ''mylink'',
      req_validityMinutes = Some (Finite (- 5))\<rparr> [sample_mapping ''old'' 40]
   = Some (Inr \<lparr>res_shortUrl = ''http://localhost:3000/mylink'', res_shortcode = ''mylink'',
             res_originalUrl = ''https://example.com'', res_expiresAt = Some 200000,
             res_createdAt = Some 500000\<rparr>,
           [\<lparr>shortcode = ''mylink'', originalUrl = ''https://example.com'',
             expiresAt = Some 200000, createdAt = Some 500000, accessCount = 0\<rparr>])"
    by (simp add: sample_URL_parses_def shortenUrl_def isValidUrl_def cleanExpiredMappings_def
        live_def sample_mapping_def Date_value_def chooseShortcode_def isValidShortcode_def
        alnum_def taken_def validityMinutes_of_def ToBoolean_def expiryDate_neg_numeral
        Date_new_numeral Let_def)
  have b0: "\<bar>50\<bar> \<le> (8640000000000000::int)" by simp
  have b5: "\<bar>500000\<bar> \<le> (8640000000000000::int)" by simp
  have a0: "50 + 1800000 \<le> (8640000000000000::int)" by simp
  have a5: "(- 5::int) \<noteq> 0" "(- 5::int) < 0"
      "\<bar>500000 + - 5 * 60000\<bar> \<le> (8640000000000000::int)" "(500000::int) \<le> 500000"
    by simp_all
  note t0 = created_expiry_time [OF c0 b0, THEN conjunct2, THEN conjunct2, THEN conjunct1,
      rule_format]
  note t5 = created_expiry_time [OF c5 b5, THEN conjunct2, THEN conjunct2, THEN conjunct2]
  from t0 a0 have z1: "Some (1800050::int) = Some (50 + 1800000)"
    and z2: "fst (resolveShortcode 50 50 ''mylink''
        [\<lparr>shortcode = ''mylink'', originalUrl = ''https://example.com'',
          expiresAt = Some 1800050, createdAt = Some 50, accessCount = 0\<rparr>])
        = Some ''https://example.com''"
    and z3: "taken (fst (getAllMappings 50 (snd (snd (resolveShortcode 50 50 ''mylink''
        [\<lparr>shortcode = ''mylink'', originalUrl = ''https://example.com'',
          expiresAt = Some 1800050, createdAt = Some 50, accessCount = 0\<rparr>]))))) ''mylink''"
    by simp_all
  from t5 [THEN conjunct1, rule_format, of "- 5"]
  have e: "Some (200000::int) = Some (500000 + - 5 * 60000)" by simp
  from t5 [THEN conjunct2, rule_format, of "- 5" 500000]
  have x1: "fst (resolveShortcode 500000 500000 ''mylink''
     [\<lparr>shortcode = ''mylink'', originalUrl = ''https://example.com'',
       expiresAt = Some 200000, createdAt = Some 500000, accessCount = 0\<rparr>]) = None"
    and x2: "\<not> taken (fst (getAllMappings 500000
     (snd (snd (resolveShortcode 500000 500000 ''mylink''
     [\<lparr>shortcode = ''mylink'', originalUrl = ''https://example.com'',
       expiresAt = Some 200000, createdAt = Some 500000, accessCount = 0\<rparr>]))))) ''mylink''"
    by simp_all
  from c0 b0 a0 z1 z2 z3 c5 b5 a5 e x1 x2 show ?thesis by (intro conjI)
qed

text \<open>
  C3. For every URL that parses and every custom code \<open>c\<close> that matches
  \<open>^[A-Za-z0-9]{3,10}$\<close> and is not the shortcode of a mapping that is live when the call
  sweeps, \<open>shortenUrl\<close> succeeds and returns a record with shortcode \<open>c\<close>; a second call
  with the same \<open>c\<close> on the store the first call left, made while the new mapping is
  still live, throws the code-taken error.
\<close>

theorem custom_code_created_then_taken:
  assumes "URL_parses u" and "isValidShortcode c"
    and "\<not> list_ex (\<lambda>m. shortcode m = c \<and> live t_clean m) stored"
  shows "\<exists>response stored'.
     shortenUrl URL_parses BASE_URL draws t_clean t_now t_created
       \<lparr>req_originalUrl = u, req_customShortcode = Some c, req_validityMinutes = v\<rparr> stored
       = Some (Inr response, stored') \<and>
     res_shortcode response = c \<and>
     (\<forall>u2 v2 draws2 t2 t_now2 t_created2.
        URL_parses u2 \<and> t2 < Date_value (res_expiresAt response) \<longrightarrow>
        shortenUrl URL_parses BASE_URL draws2 t2 t_now2 t_created2
          \<lparr>req_originalUrl = u2, req_customShortcode = Some c, req_validityMinutes = v2\<rparr> stored'
        = Some (Inl CodeTakenError, filter (live t2) stored'))"
proof -
  let ?ms = "cleanExpiredMappings t_clean stored"
  let ?e = "expiryDate t_now (validityMinutes_of v)"
  let ?d = "Date_new (Finite (of_int t_created))"
  let ?new = "\<lparr>shortcode = c, originalUrl = u, expiresAt = ?e,
                createdAt = ?d, accessCount = 0\<rparr>"
  let ?response = "\<lparr>res_shortUrl = BASE_URL @ ''/'' @ c, res_shortcode = c,
                     res_originalUrl = u, res_expiresAt = ?e, res_createdAt = ?d\<rparr>"
  from assms(2) have ne: "c \<noteq> []" by (auto simp: isValidShortcode_def)
  from assms(3) have free: "\<not> taken ?ms c"
    by (auto simp: taken_def list_ex_iff cleanExpiredMappings_filter)
  with ne assms(2) have ch: "chooseShortcode draws ?ms (Some c) = Some (Inr c)"
    by (simp add: chooseShortcode_def)
  have first: "shortenUrl URL_parses BASE_URL draws t_clean t_now t_created
       \<lparr>req_originalUrl = u, req_customShortcode = Some c, req_validityMinutes = v\<rparr> stored
       = Some (Inr ?response, ?ms @ [?new])"
    using shortenUrl_chosen [of URL_parses
        "\<lparr>req_originalUrl = u, req_customShortcode = Some c, req_validityMinutes = v\<rparr>"
        draws t_clean stored c BASE_URL t_now t_created] assms(1) ch
    by simp
  have second: "shortenUrl URL_parses BASE_URL draws2 t2 t_now2 t_created2
          \<lparr>req_originalUrl = u2, req_customShortcode = Some c, req_validityMinutes = v2\<rparr>
          (?ms @ [?new])
        = Some (Inl CodeTakenError, filter (live t2) (?ms @ [?new]))"
    if "URL_parses u2 \<and> t2 < Date_value (res_expiresAt ?response)"
    for u2 v2 draws2 t2 t_now2 t_created2
  proof -
    from that have "live t2 ?new" by (simp add: live_def)
    then have "taken (filter (live t2) (?ms @ [?new])) c"
      by (simp add: taken_iff)
    with that ne assms(2) show ?thesis
      by (simp add: shortenUrl_def isValidUrl_def chooseShortcode_def
          cleanExpiredMappings_filter [of t2])
  qed
  from first second show ?thesis by (intro exI [of _ ?response] exI [of _ "?ms @ [?new]"]) simp
qed

theorem custom_code_created_then_taken_witness:
  "sample_URL_parses ''https://example.com'' \<and> isValidShortcode ''mylink'' \<and>
   \<not> list_ex (\<lambda>m. shortcode m = ''mylink'' \<and> live 50 m)
        [sample_mapping ''mylink'' 40, sample_mapping ''new'' 90] \<and>
   shortenUrl sample_URL_parses ''http://localhost:3000'' sample_draws 50 50 50
     \<lparr>req_originalUrl = ''https://example.com'', req_customShortcode = Some ''mylink'',
      req_validityMinutes = None\<rparr> [sample_mapping ''mylink'' 40, sample_mapping ''new'' 90]
   = Some (Inr \<lparr>res_shortUrl = ''http://localhost:3000/mylink'', res_shortcode = ''mylink'',
             res_originalUrl = ''https://example.com'', res_expiresAt = Some 1800050,
             res_createdAt = Some 50\<rparr>,
           [sample_mapping ''new'' 90,
            \<lparr>shortcode = ''mylink'', originalUrl = ''https://example.com'',
             expiresAt = Some 1800050, createdAt = Some 50, accessCount = 0\<rparr>]) \<and>
   sample_URL_parses ''file:///etc/hosts'' \<and> (100::int) < Date_value (Some 1800050) \<and>
   shortenUrl sample_URL_parses ''http://localhost:3000'' sample_draws 100 100 100
     \<lparr>req_originalUrl = ''file:///etc/hosts'', req_customShortcode = Some ''mylink'',
      req_validityMinutes = Some (Finite 5)\<rparr>
     [sample_mapping ''new'' 90,
      \<lparr>shortcode = ''mylink'', originalUrl = ''https://example.com'',
       expiresAt = Some 1800050, createdAt = Some 50, accessCount = 0\<rparr>]
   = Some (Inl CodeTakenError,
           [\<lparr>shortcode = ''mylink'', originalUrl = ''https://example.com'',
             expiresAt = Some 1800050, createdAt = Some 50, accessCount = 0\<rparr>])"
proof -
  let ?stored = "[sample_mapping ''mylink'' 40, sample_mapping ''new'' 90]"
  let ?request = "\<lparr>req_originalUrl = ''https://example.com'',
      req_customShortcode = Some ''mylink'', req_validityMinutes = None\<rparr>"
  have p: "sample_URL_parses ''https://example.com''" by (simp add: sample_URL_parses_def)
  have p2: "sample_URL_parses ''file:///etc/hosts''" by (simp add: sample_URL_parses_def)
  have ok: "isValidShortcode ''mylink''" by (simp add: isValidShortcode_def alnum_def)
  have free: "\<not> list_ex (\<lambda>m. shortcode m = ''mylink'' \<and> live 50 m) ?stored"
    by (simp add: sample_mapping_def live_def Date_value_def)
  have first: "shortenUrl sample_URL_parses ''http://localhost:3000'' sample_draws 50 50 50
     ?request ?stored
   = Some (Inr \<lparr>res_shortUrl = ''http://localhost:3000/mylink'', res_shortcode = ''mylink'',
             res_originalUrl = ''https://example.com'', res_expiresAt = Some 1800050,
             res_createdAt = Some 50\<rparr>,
           [sample_mapping ''new'' 90,
            \<lparr>shortcode = ''mylink'', originalUrl = ''https://example.com'',
             expiresAt = Some 1800050, createdAt = Some 50, accessCount = 0\<rparr>])"
    using p ok
    by (simp add: shortenUrl_def isValidUrl_def cleanExpiredMappings_def live_def
        sample_mapping_def Date_value_def chooseShortcode_def taken_def validityMinutes_of_def
        ToBoolean_def expiryDate_numeral Date_new_numeral Let_def)
  from custom_code_created_then_taken [where URL_parses = sample_URL_parses
      and u = "''https://example.com''" and c = "''mylink''"
      and BASE_URL = "''http://localhost:3000''" and draws = sample_draws
      and t_clean = 50 and t_now = 50 and t_created = 50 and v = None
      and stored = ?stored, OF p ok free]
  obtain response stored' where
    r: "shortenUrl sample_URL_parses ''http://localhost:3000'' sample_draws 50 50 50
          ?request ?stored = Some (Inr response, stored')"
    and again: "\<And>u2 v2 draws2 t2 t_now2 t_created2.
        sample_URL_parses u2 \<and> t2 < Date_value (res_expiresAt response) \<Longrightarrow>
        shortenUrl sample_URL_parses ''http://localhost:3000'' draws2 t2 t_now2 t_created2
          \<lparr>req_originalUrl = u2, req_customShortcode = Some ''mylink'',
           req_validityMinutes = v2\<rparr> stored'
        = Some (Inl CodeTakenError, filter (live t2) stored')"
    by blast
  from r first have e: "res_expiresAt response = Some 1800050"
    and s: "stored' = [sample_mapping ''new'' 90,
            \<lparr>shortcode = ''mylink'', originalUrl = ''https://example.com'',
             expiresAt = Some 1800050, createdAt = Some 50, accessCount = 0\<rparr>]"
    by auto
  have l: "(100::int) < Date_value (Some 1800050)" by (simp add: Date_value_def)
  from again [of "''file:///etc/hosts''" 100 sample_draws 100 100 "Some (Finite 5)"] p2 l e s
  have second: "shortenUrl sample_URL_parses ''http://localhost:3000'' sample_draws 100 100 100
     \<lparr>req_originalUrl = ''file:///etc/hosts'', req_customShortcode = Some ''mylink'',
      req_validityMinutes = Some (Finite 5)\<rparr>
     [sample_mapping ''new'' 90,
      \<lparr>shortcode = ''mylink'', originalUrl = ''https://example.com'',
       expiresAt = Some 1800050, createdAt = Some 50, accessCount = 0\<rparr>]
   = Some (Inl CodeTakenError,
           [\<lparr>shortcode = ''mylink'', originalUrl = ''https://example.com'',
             expiresAt = Some 1800050, createdAt = Some 50, accessCount = 0\<rparr>])"
    by (simp add: live_def sample_mapping_def Date_value_def)
  from p ok free first p2 l second show ?thesis by blast
qed

text \<open>
  C4, as stated, fails: an empty custom code does not match the format, yet
  \<open>if (shortcode)\<close> takes the empty string for an absent code, so the call generates a
  code, succeeds and stores a record.
\<close>

theorem empty_custom_code_counterexample:
  "sample_URL_parses ''https://example.com'' \<and> \<not> isValidShortcode [] \<and>
   shortenUrl sample_URL_parses ''http://localhost:3000'' sample_draws 50 50 50
     \<lparr>req_originalUrl = ''https://example.com'', req_customShortcode = Some [],
      req_validityMinutes = None\<rparr> []
   = Some (Inr \<lparr>res_shortUrl = ''http://localhost:3000/abcdef'', res_shortcode = ''abcdef'',
             res_originalUrl = ''https://example.com'', res_expiresAt = Some 1800050,
             res_createdAt = Some 50\<rparr>,
           [\<lparr>shortcode = ''abcdef'', originalUrl = ''https://example.com'',
             expiresAt = Some 1800050, createdAt = Some 50, accessCount = 0\<rparr>])"
  by (simp add: sample_URL_parses_def isValidShortcode_def shortenUrl_def isValidUrl_def
      cleanExpiredMappings_def chooseShortcode_def regenerate.simps taken_def sample_code
      validityMinutes_of_def ToBoolean_def expiryDate_numeral Date_new_numeral Let_def)

text \<open>
  C4, amended. For every URL that parses and every non-empty custom code \<open>c\<close> that does
  not match \<open>^[A-Za-z0-9]{3,10}$\<close>, \<open>shortenUrl\<close> throws the format error, and the store it
  leaves is the old one without its expired records: no record is added.
\<close>

theorem invalid_custom_code_rejected:
  assumes "URL_parses u" and "c \<noteq> []" and "\<not> isValidShortcode c"
  shows "shortenUrl URL_parses BASE_URL draws t_clean t_now t_created
           \<lparr>req_originalUrl = u, req_customShortcode = Some c, req_validityMinutes = v\<rparr> stored
         = Some (Inl InvalidCodeFormatError, filter (live t_clean) stored)"
  using assms
  by (simp add: shortenUrl_def isValidUrl_def chooseShortcode_def cleanExpiredMappings_filter)

theorem invalid_custom_code_rejected_witness:
  "sample_URL_parses ''https://example.com'' \<and> ''a b'' \<noteq> [] \<and> \<not> isValidShortcode ''a b'' \<and>
   shortenUrl sample_URL_parses ''http://localhost:3000'' sample_draws 50 50 50
     \<lparr>req_originalUrl = ''https://example.com'', req_customShortcode = Some ''a b'',
      req_validityMinutes = None\<rparr>
     [sample_mapping ''old'' 40, sample_mapping ''new'' 90]
   = Some (Inl InvalidCodeFormatError, [sample_mapping ''new'' 90])"
proof -
  have p: "sample_URL_parses ''https://example.com''" by (simp add: sample_URL_parses_def)
  have n: "''a b'' \<noteq> []" by simp
  have i: "\<not> isValidShortcode ''a b''" by (simp add: isValidShortcode_def alnum_def)
  from invalid_custom_code_rejected [where URL_parses = sample_URL_parses
      and u = "''https://example.com''" and c = "''a b''" and BASE_URL = "''http://localhost:3000''"
      and draws = sample_draws and t_clean = 50 and t_now = 50 and t_created = 50 and v = None
      and stored = "[sample_mapping ''old'' 40, sample_mapping ''new'' 90]", OF p n i] p n i
  show ?thesis by (simp add: live_def sample_mapping_def Date_value_def)
qed

text \<open>
  C5. \<open>shortenUrl\<close> throws the invalid-URL error exactly when the platform's parser
  rejects the string; the parser is the only test of the URL, with no list of allowed
  schemes, so a string that parses (\<open>javascript:\<close> and \<open>file:\<close> URLs do) is accepted:
  with no custom code, the call returns a mapping for it as soon as one generated code is
  free.
\<close>

theorem invalid_url_exactly_when_unparseable:
  "((\<exists>stored'. shortenUrl URL_parses BASE_URL draws t_clean t_now t_created request stored
        = Some (Inl InvalidUrlError, stored'))
      \<longleftrightarrow> \<not> URL_parses (req_originalUrl request)) \<and>
   (URL_parses s \<and> \<not> taken (cleanExpiredMappings t_clean stored) (generateShortcode draws (6 * n))
      \<longrightarrow> (\<exists>response stored'.
            shortenUrl URL_parses BASE_URL draws t_clean t_now t_created
              \<lparr>req_originalUrl = s, req_customShortcode = None, req_validityMinutes = None\<rparr> stored
            = Some (Inr response, stored') \<and> res_originalUrl response = s))"
proof (intro conjI impI iffI)
  assume "\<exists>stored'. shortenUrl URL_parses BASE_URL draws t_clean t_now t_created request stored
        = Some (Inl InvalidUrlError, stored')"
  then show "\<not> URL_parses (req_originalUrl request)"
    by (auto simp: shortenUrl_def isValidUrl_def Let_def chooseShortcode_def
        split: if_splits option.splits sum.splits)
next
  assume "\<not> URL_parses (req_originalUrl request)"
  then show "\<exists>stored'. shortenUrl URL_parses BASE_URL draws t_clean t_now t_created request stored
        = Some (Inl InvalidUrlError, stored')"
    by (simp add: shortenUrl_def isValidUrl_def)
next
  assume a: "URL_parses s \<and>
    \<not> taken (cleanExpiredMappings t_clean stored) (generateShortcode draws (6 * n))"
  then obtain c where
    "regenerate draws (cleanExpiredMappings t_clean stored) (generateShortcode draws 0) 6 = Some c"
    using regenerate_first_returns by blast
  then have "chooseShortcode draws (cleanExpiredMappings t_clean stored) None = Some (Inr c)"
    by (simp add: chooseShortcode_def)
  with a show "\<exists>response stored'.
            shortenUrl URL_parses BASE_URL draws t_clean t_now t_created
              \<lparr>req_originalUrl = s, req_customShortcode = None, req_validityMinutes = None\<rparr> stored
            = Some (Inr response, stored') \<and> res_originalUrl response = s"
    by (simp add: shortenUrl_chosen)
qed

theorem invalid_url_exactly_when_unparseable_witness:
  "\<not> sample_URL_parses ''not a url'' \<and>
   (\<exists>stored'. shortenUrl sample_URL_parses ''http://localhost:3000'' sample_draws 50 50 50
       \<lparr>req_originalUrl = ''not a url'', req_customShortcode = None, req_validityMinutes = None\<rparr> []
     = Some (Inl InvalidUrlError, stored')) \<and>
   sample_URL_parses ''javascript:alert(1)'' \<and>
   \<not> taken (cleanExpiredMappings 50 []) (generateShortcode sample_draws (6 * 0)) \<and>
   (\<exists>response stored'. shortenUrl sample_URL_parses ''http://localhost:3000'' sample_draws 50 50 50
       \<lparr>req_originalUrl = ''javascript:alert(1)'', req_customShortcode = None,
        req_validityMinutes = None\<rparr> []
     = Some (Inr response, stored') \<and> res_originalUrl response = ''javascript:alert(1)'')"
proof -
  have bad: "\<not> sample_URL_parses ''not a url''" by (simp add: sample_URL_parses_def)
  have good: "sample_URL_parses ''javascript:alert(1)''" by (simp add: sample_URL_parses_def)
  have free: "\<not> taken (cleanExpiredMappings 50 []) (generateShortcode sample_draws (6 * 0))"
    by (simp add: cleanExpiredMappings_def taken_def)
  from invalid_url_exactly_when_unparseable [of sample_URL_parses "''http://localhost:3000''"
      sample_draws 50 50 50
      "\<lparr>req_originalUrl = ''not a url'', req_customShortcode = None, req_validityMinutes = None\<rparr>"
      "[]" "''javascript:alert(1)''" 0] bad good free
  show ?thesis by simp
qed

subsection \<open>One live mapping per shortcode\<close>

text \<open>
  C6. In every store that a sequence of create, resolve, list and delete calls reaches
  from the empty store, no shortcode has two live mappings, at any time \<open>t\<close>; and every
  one of the four operations preserves this: from a store where no shortcode has two
  live mappings at any time, it leaves such a store.
\<close>

theorem at_most_one_live_invariant:
  "(reachable s \<longrightarrow> at_most_one_live t s) \<and>
   ((\<forall>t0. at_most_one_live t0 s) \<and> step s s' \<longrightarrow> at_most_one_live t s')"
proof (intro conjI impI)
  assume "reachable s"
  then have "distinct (map shortcode s)" by (rule reachable_distinct)
  then show "at_most_one_live t s" by (rule distinct_at_most_one_live)
next
  assume a: "(\<forall>t0. at_most_one_live t0 s) \<and> step s s'"
  then have "distinct (map shortcode s)" by (intro always_one_live_distinct) simp
  with a have "distinct (map shortcode s')" using step_distinct by blast
  then show "at_most_one_live t s'" by (rule distinct_at_most_one_live)
qed

theorem at_most_one_live_invariant_witness:
  "reachable [sample_mapping ''mylink'' 1800050] \<and>
   at_most_one_live 60 [sample_mapping ''mylink'' 1800050] \<and>
   (\<forall>t0. at_most_one_live t0 [sample_mapping ''mylink'' 1800050]) \<and>
   step [sample_mapping ''mylink'' 1800050]
     [(sample_mapping ''mylink'' 1800050)\<lparr>accessCount := 1\<rparr>] \<and>
   at_most_one_live 60 [(sample_mapping ''mylink'' 1800050)\<lparr>accessCount := 1\<rparr>]"
proof -
  have c: "shortenUrl sample_URL_parses ''http://localhost:3000'' sample_draws 50 50 0
     \<lparr>req_originalUrl = ''https://example.com'', req_customShortcode = Some ''mylink'',
      req_validityMinutes = None\<rparr> []
    = Some (Inr \<lparr>res_shortUrl = ''http://localhost:3000/mylink'', res_shortcode = ''mylink'',
             res_originalUrl = ''https://example.com'', res_expiresAt = Some 1800050,
             res_createdAt = Some 0\<rparr>, [sample_mapping ''mylink'' 1800050])"
    by (simp add: sample_URL_parses_def shortenUrl_def isValidUrl_def cleanExpiredMappings_def
        sample_mapping_def chooseShortcode_def isValidShortcode_def
        alnum_def taken_def validityMinutes_of_def ToBoolean_def expiryDate_numeral
        Date_new_zero Let_def)
  have r: "reachable [sample_mapping ''mylink'' 1800050]"
    by (rule reachable.step [OF reachable.empty step.create [OF c]])
  have a: "\<forall>t0. at_most_one_live t0 [sample_mapping ''mylink'' 1800050]"
    by (simp add: at_most_one_live_def)
  have "resolveShortcode 60 60 ''mylink'' [sample_mapping ''mylink'' 1800050]
    = (Some ''https://example.com'', Resolved,
       [(sample_mapping ''mylink'' 1800050)\<lparr>accessCount := 1\<rparr>])"
    by (simp add: resolveShortcode_def cleanExpiredMappings_def live_def Date_value_def
        sample_mapping_def round_double_one)
  then have s: "step [sample_mapping ''mylink'' 1800050]
     [(sample_mapping ''mylink'' 1800050)\<lparr>accessCount := 1\<rparr>]"
    by (rule step.resolve)
  from at_most_one_live_invariant [of "[sample_mapping ''mylink'' 1800050]" 60
      "[(sample_mapping ''mylink'' 1800050)\<lparr>accessCount := 1\<rparr>]"] r a s
  show ?thesis by simp
qed

subsection \<open>Listing\<close>

text \<open>
  C7. The expiration sweep is idempotent: for every stored collection and every fixed
  current time, a second call of \<open>getAllMappings\<close> right after the first returns the same
  sequence of mappings and leaves the same store; nothing more is dropped and nothing is
  duplicated.
\<close>

theorem list_twice_same:
  "getAllMappings now (snd (getAllMappings now stored)) = getAllMappings now stored"
  by (simp add: getAllMappings_def Let_def cleanExpiredMappings_filter)

subsection \<open>Deleting\<close>

text \<open>
  C8. For every stored collection and every code \<open>c\<close>, \<open>deleteMappingByShortcode\<close>
  removes every record whose shortcode is \<open>c\<close>, live or expired (the store it leaves is
  the old one without the records of code \<open>c\<close>), and returns true exactly when the
  store held such a record; when no record has the code, it returns false and the store
  is unchanged.
\<close>

theorem delete_removes_all_with_code:
  "deleteMappingByShortcode c stored = (taken stored c, filter (\<lambda>m. shortcode m \<noteq> c) stored)
   \<and> (\<not> taken stored c \<longrightarrow> deleteMappingByShortcode c stored = (False, stored))"
proof -
  have s: "snd (deleteMappingByShortcode c stored) = filter (\<lambda>m. shortcode m \<noteq> c) stored"
    by (rule deleteMappingByShortcode_filter)
  have f: "fst (deleteMappingByShortcode c stored) = taken stored c"
  proof (cases "taken stored c")
    case True
    then obtain m where "m \<in> set stored" "shortcode m = c" by (auto simp: taken_iff)
    then have "length (filter (\<lambda>m. shortcode m \<noteq> c) stored) < length stored"
      by (intro length_filter_less) auto
    with True show ?thesis by (simp add: deleteMappingByShortcode_def Let_def)
  next
    case False
    then have "filter (\<lambda>m. shortcode m \<noteq> c) stored = stored"
      by (auto simp: taken_iff filter_id_conv)
    with False show ?thesis by (simp add: deleteMappingByShortcode_def Let_def)
  qed
  have n: "\<not> taken stored c \<longrightarrow> deleteMappingByShortcode c stored = (False, stored)"
  proof
    assume "\<not> taken stored c"
    then have "filter (\<lambda>m. shortcode m \<noteq> c) stored = stored"
      by (auto simp: taken_iff filter_id_conv)
    then show "deleteMappingByShortcode c stored = (False, stored)"
      by (simp add: deleteMappingByShortcode_def Let_def)
  qed
  from s f n show ?thesis by (metis prod.collapse)
qed

theorem delete_removes_all_with_code_witness:
  "\<not> taken [sample_mapping ''old'' 40, sample_mapping ''new'' 90, sample_mapping ''old'' 95] ''abc'' \<and>
   deleteMappingByShortcode ''abc''
     [sample_mapping ''old'' 40, sample_mapping ''new'' 90, sample_mapping ''old'' 95]
   = (False, [sample_mapping ''old'' 40, sample_mapping ''new'' 90, sample_mapping ''old'' 95]) \<and>
   deleteMappingByShortcode ''old''
     [sample_mapping ''old'' 40, sample_mapping ''new'' 90, sample_mapping ''old'' 95]
   = (True, [sample_mapping ''new'' 90])"
proof -
  have free: "\<not> taken [sample_mapping ''old'' 40, sample_mapping ''new'' 90,
      sample_mapping ''old'' 95] ''abc''"
    by (simp add: taken_def sample_mapping_def)
  from free
    delete_removes_all_with_code [of "''abc''"
      "[sample_mapping ''old'' 40, sample_mapping ''new'' 90, sample_mapping ''old'' 95]"]
    delete_removes_all_with_code [of "''old''"
      "[sample_mapping ''old'' 40, sample_mapping ''new'' 90, sample_mapping ''old'' 95]"]
  show ?thesis by (simp add: taken_def sample_mapping_def)
qed

subsection \<open>Access counts\<close>




subsection \<open>The expiry check of resolve\<close>

text \<open>
  C10. When the sweep and the expiry check of \<open>resolveShortcode\<close> read the same time,
  the branch of the expiry check is never taken: the sweep has removed every record with
  \<open>expiresAt \<le> now\<close>, so a record that the lookup finds is live. The operation then
  returns null only through the not-found branch, that is, exactly when the lookup in the
  swept collection finds nothing.
\<close>

theorem expired_check_unreachable:
  "fst (snd (resolveShortcode now now code stored)) \<noteq> Expired \<and>
   (fst (resolveShortcode now now code stored) = None \<longleftrightarrow>
      fst (snd (resolveShortcode now now code stored)) = Not_found) \<and>
   (fst (snd (resolveShortcode now now code stored)) = Not_found \<longleftrightarrow>
      find (\<lambda>m. shortcode m = code) (cleanExpiredMappings now stored) = None)"
proof (cases "find (\<lambda>m. shortcode m = code) (cleanExpiredMappings now stored)")
  case None
  then show ?thesis by (simp add: resolveShortcode_def Let_def)
next
  case (Some m)
  then have "m \<in> set (filter (live now) stored)"
    using find_Some_mem [of "\<lambda>m. shortcode m = code" "cleanExpiredMappings now stored" m]
    by (simp add: cleanExpiredMappings_filter)
  then have "now < Date_value (expiresAt m)" by (simp add: live_def)
  with Some show ?thesis by (simp add: resolveShortcode_def Let_def)
qed

text \<open>The branch is there for a clock that moves between the two readings: a record
  that is live at the sweep and expired at the check.\<close>

lemma expired_check_taken_later:
  "resolveShortcode 10 20 ''abc'' [sample_mapping ''abc'' 15]
   = (None, Expired, [sample_mapping ''abc'' 15])"
  by (simp add: resolveShortcode_def cleanExpiredMappings_def live_def Date_value_def
      sample_mapping_def)

end
